theory Spec2Isabelle
  imports Main
begin

section \<open>JavaScript values\<close>

text \<open>
  The library is untyped at run time: both parameters of a factory are declared
  \<^verbatim>\<open>any\<close>. A value is a primitive, a function, an array or a reference. Plain objects and
  DOM elements are mutable and have an identity, so they are references into the store;
  arrays are never written by the library and are modelled by their contents.
  Numbers are the integers that JavaScript prints with all their digits (the library
  only reads a number's string form and its truthiness); fractions, \<^verbatim>\<open>NaN\<close> and the
  infinities are outside the model. A function carries an identity and the source text
  that its string conversion gives. Objects carry their own enumerable string-keyed data
  properties in enumeration order; prototype chains, accessors and symbols are outside
  the model.
\<close>

datatype jsval =
    JUndefined
  | JNull
  | JBool bool
  | JNum int
  | JBigInt int
  | JStr string
  | JFun nat string
  | JArr "jsval list"
  | JObj nat
  | JElem nat

fun typeof :: "jsval \<Rightarrow> string" where
  "typeof JUndefined = ''undefined''"
| "typeof JNull = ''object''"
| "typeof (JBool b) = ''boolean''"
| "typeof (JNum n) = ''number''"
| "typeof (JBigInt n) = ''bigint''"
| "typeof (JStr s) = ''string''"
| "typeof (JFun f src) = ''function''"
| "typeof (JArr xs) = ''object''"
| "typeof (JObj a) = ''object''"
| "typeof (JElem a) = ''object''"

fun Array_isArray :: "jsval \<Rightarrow> bool" where
  "Array_isArray (JArr xs) = True"
| "Array_isArray v = False"

fun instanceof_HTMLElement :: "jsval \<Rightarrow> bool" where
  "instanceof_HTMLElement (JElem a) = True"
| "instanceof_HTMLElement v = False"

text \<open>Truthiness, as \<^verbatim>\<open>||\<close>, \<^verbatim>\<open>if\<close> and \<^verbatim>\<open>filter(Boolean)\<close> test it.\<close>

fun truthy :: "jsval \<Rightarrow> bool" where
  "truthy JUndefined = False"
| "truthy JNull = False"
| "truthy (JBool b) = b"
| "truthy (JNum n) = (n \<noteq> 0)"
| "truthy (JBigInt n) = (n \<noteq> 0)"
| "truthy (JStr s) = (s \<noteq> [])"
| "truthy v = True"

subsection \<open>Strings\<close>

fun string_of_nat :: "nat \<Rightarrow> string" where
  "string_of_nat n =
     (if n < 10 then [''0123456789'' ! n]
      else string_of_nat (n div 10) @ [''0123456789'' ! (n mod 10)])"

declare string_of_nat.simps [simp del]

definition string_of_int :: "int \<Rightarrow> string" where
  "string_of_int i = (if i < 0 then CHR ''-'' # string_of_nat (nat (- i)) else string_of_nat (nat i))"

text \<open>\<^verbatim>\<open>Array.prototype.join\<close> on strings.\<close>

fun join :: "string \<Rightarrow> string list \<Rightarrow> string" where
  "join sep [] = []"
| "join sep [x] = x"
| "join sep (x # y # ys) = x @ sep @ join sep (y # ys)"

text \<open>
  \<^verbatim>\<open>s.split(' ')\<close>: the pieces between single space characters; never an empty list
  (\<^verbatim>\<open>''.split(' ')\<close> is \<^verbatim>\<open>['']\<close>).
\<close>

fun split_space :: "string \<Rightarrow> string list" where
  "split_space [] = [[]]"
| "split_space (c # cs) =
     (if c = CHR '' '' then [] # split_space cs
      else (c # hd (split_space cs)) # tl (split_space cs))"

text \<open>
  \<^verbatim>\<open>new Set(iterable)\<close> followed by \<^verbatim>\<open>Array.from\<close>: the elements in the order of their
  first insertion.
\<close>

fun Set_add_all :: "'a list \<Rightarrow> 'a list \<Rightarrow> 'a list" where
  "Set_add_all acc [] = acc"
| "Set_add_all acc (x # xs) = Set_add_all (if x \<in> set acc then acc else acc @ [x]) xs"

definition new_Set :: "'a list \<Rightarrow> 'a list" where
  "new_Set xs = Set_add_all [] xs"

text \<open>
  String conversion (\<^verbatim>\<open>String(v)\<close>, and the conversion the DOM applies to an attribute
  value). A plain object converts to \<^verbatim>\<open>[object Object]\<close>; an array joins its converted
  elements with commas, \<^verbatim>\<open>null\<close> and \<^verbatim>\<open>undefined\<close> elements giving the empty string.
  For an element the host's interface name is approximated by \<^verbatim>\<open>HTMLElement\<close>.
\<close>

fun to_string :: "jsval \<Rightarrow> string" where
  "to_string JUndefined = ''undefined''"
| "to_string JNull = ''null''"
| "to_string (JBool b) = (if b then ''true'' else ''false'')"
| "to_string (JNum n) = string_of_int n"
| "to_string (JBigInt n) = string_of_int n"
| "to_string (JStr s) = s"
| "to_string (JFun f src) = src"
| "to_string (JArr xs) =
     join '','' (map (\<lambda>x. if x = JUndefined \<or> x = JNull then [] else to_string x) xs)"
| "to_string (JObj a) = ''[object Object]''"
| "to_string (JElem a) = ''[object HTMLElement]''"

section \<open>The store: objects, DOM nodes, console\<close>

datatype dom_child = Text string | Element nat

record node =
  localName :: string
  attributes :: "(string \<times> string) list"
  listeners :: "(string \<times> jsval) list"
  childNodes :: "dom_child list"
  parentNode :: "nat option"

text \<open>
  An object or node reference is an index into the respective list; allocation appends.
  The console holds the argument lists of the \<^verbatim>\<open>console.error\<close> calls, oldest first.
\<close>

record store =
  objs :: "(string \<times> jsval) list list"
  nodes :: "node list"
  console :: "jsval list list"

datatype js_error =
    Error string
  | TypeError string
  | DOMException string string

fun message :: "js_error \<Rightarrow> string" where
  "message (Error m) = m"
| "message (TypeError m) = m"
| "message (DOMException name m) = m"

subsection \<open>Plain objects\<close>

definition fields_of :: "store \<Rightarrow> nat \<Rightarrow> (string \<times> jsval) list" where
  "fields_of st a = (if a < length (objs st) then objs st ! a else [])"

text \<open>\<^verbatim>\<open>{}\<close>: a fresh empty object.\<close>

definition new_object :: "store \<Rightarrow> jsval \<times> store" where
  "new_object st = (JObj (length (objs st)), st\<lparr>objs := objs st @ [[]]\<rparr>)"

text \<open>\<^verbatim>\<open>o.k\<close>: the value of the property, \<^verbatim>\<open>undefined\<close> when it is missing.\<close>

fun get_prop :: "store \<Rightarrow> jsval \<Rightarrow> string \<Rightarrow> jsval" where
  "get_prop st (JObj a) k = (case map_of (fields_of st a) k of Some v \<Rightarrow> v | None \<Rightarrow> JUndefined)"
| "get_prop st v k = JUndefined"

text \<open>
  \<^verbatim>\<open>o.k = v\<close>: an existing property keeps its place in the enumeration order, a new one
  goes last.
\<close>

fun assign_field :: "'k \<Rightarrow> 'v \<Rightarrow> ('k \<times> 'v) list \<Rightarrow> ('k \<times> 'v) list" where
  "assign_field k v [] = [(k, v)]"
| "assign_field k v ((k', v') # fs) =
     (if k' = k then (k, v) # fs else (k', v') # assign_field k v fs)"

fun set_prop :: "jsval \<Rightarrow> string \<Rightarrow> jsval \<Rightarrow> store \<Rightarrow> store" where
  "set_prop (JObj a) k v st = st\<lparr>objs := (objs st)[a := assign_field k v (fields_of st a)]\<rparr>"
| "set_prop w k v st = st"

text \<open>\<^verbatim>\<open>delete o.k\<close>.\<close>

fun delete_prop :: "jsval \<Rightarrow> string \<Rightarrow> store \<Rightarrow> store" where
  "delete_prop (JObj a) k st =
     st\<lparr>objs := (objs st)[a := filter (\<lambda>kv. fst kv \<noteq> k) (fields_of st a)]\<rparr>"
| "delete_prop w k st = st"

text \<open>
  \<^verbatim>\<open>Object.entries(v)\<close>: throws on \<^verbatim>\<open>null\<close> and \<^verbatim>\<open>undefined\<close>; an array gives its indices as
  keys; a string its characters; other primitives, functions and elements have no own
  enumerable properties.
\<close>

fun Object_entries :: "store \<Rightarrow> jsval \<Rightarrow> js_error + (string \<times> jsval) list" where
  "Object_entries st JUndefined = Inl (TypeError ''Cannot convert undefined or null to object'')"
| "Object_entries st JNull = Inl (TypeError ''Cannot convert undefined or null to object'')"
| "Object_entries st (JObj a) = Inr (fields_of st a)"
| "Object_entries st (JArr xs) = Inr (zip (map string_of_nat [0 ..< length xs]) xs)"
| "Object_entries st (JStr s) =
     Inr (zip (map string_of_nat [0 ..< length s]) (map (\<lambda>c. JStr [c]) s))"
| "Object_entries st v = Inr []"

subsection \<open>\<^verbatim>\<open>JSON.stringify\<close>\<close>

definition hex_digit :: "nat \<Rightarrow> char" where
  "hex_digit d = ''0123456789abcdef'' ! d"

definition json_escape :: "char \<Rightarrow> string" where
  "json_escape c =
     (let n = (of_char c :: nat) in
      if n = 0x22 then [CHR 0x5C, CHR 0x22]
      else if n = 0x5C then [CHR 0x5C, CHR 0x5C]
      else if n = 8 then [CHR 0x5C, CHR ''b'']
      else if n = 9 then [CHR 0x5C, CHR ''t'']
      else if n = 10 then [CHR 0x5C, CHR ''n'']
      else if n = 12 then [CHR 0x5C, CHR ''f'']
      else if n = 13 then [CHR 0x5C, CHR ''r'']
      else if n < 32 then
        [CHR 0x5C, CHR ''u'', CHR ''0'', CHR ''0'', hex_digit (n div 16), hex_digit (n mod 16)]
      else [c])"

definition json_quote :: "string \<Rightarrow> string" where
  "json_quote s = CHR 0x22 # concat (map json_escape s) @ [CHR 0x22]"

text \<open>
  The serializer walks the object graph with the stack of the objects it is inside of.
  It throws on a BigInt and on an object that contains itself; \<^verbatim>\<open>undefined\<close> and functions
  have no serialization (the result \<open>None\<close> is JavaScript's \<^verbatim>\<open>undefined\<close>), are left out of
  an object and written \<^verbatim>\<open>null\<close> in an array. An element has no own enumerable properties.
\<close>

definition unvisited :: "'a list \<Rightarrow> nat list \<Rightarrow> nat" where
  "unvisited H stk = card ({..< length H} - set stk)"

lemma unvisited_push:
  "a \<notin> set stk \<Longrightarrow> a < length H \<Longrightarrow> unvisited H (a # stk) < unvisited H stk"
  unfolding unvisited_def by (intro psubset_card_mono) auto

function json_value ::
    "(string \<times> jsval) list list \<Rightarrow> nat list \<Rightarrow> jsval \<Rightarrow> js_error + string option"
  and json_elements ::
    "(string \<times> jsval) list list \<Rightarrow> nat list \<Rightarrow> jsval list \<Rightarrow> js_error + string list"
  and json_members ::
    "(string \<times> jsval) list list \<Rightarrow> nat list \<Rightarrow> (string \<times> jsval) list \<Rightarrow> js_error + string list"
where
  "json_value H stk JUndefined = Inr None"
| "json_value H stk JNull = Inr (Some ''null'')"
| "json_value H stk (JBool b) = Inr (Some (if b then ''true'' else ''false''))"
| "json_value H stk (JNum n) = Inr (Some (string_of_int n))"
| "json_value H stk (JBigInt n) = Inl (TypeError ''Do not know how to serialize a BigInt'')"
| "json_value H stk (JStr s) = Inr (Some (json_quote s))"
| "json_value H stk (JFun f src) = Inr None"
| "json_value H stk (JArr xs) =
     (case json_elements H stk xs of
        Inl e \<Rightarrow> Inl e
      | Inr ss \<Rightarrow> Inr (Some (''['' @ join '','' ss @ '']'')))"
| "json_value H stk (JObj a) =
     (if a \<in> set stk then Inl (TypeError ''Converting circular structure to JSON'')
      else if a < length H then
        (case json_members H (a # stk) (H ! a) of
           Inl e \<Rightarrow> Inl e
         | Inr ms \<Rightarrow> Inr (Some (''{'' @ join '','' ms @ ''}'')))
      else Inr (Some ''{}''))"
| "json_value H stk (JElem a) = Inr (Some ''{}'')"
| "json_elements H stk [] = Inr []"
| "json_elements H stk (x # xs) =
     (case json_value H stk x of
        Inl e \<Rightarrow> Inl e
      | Inr r \<Rightarrow>
          (case json_elements H stk xs of
             Inl e \<Rightarrow> Inl e
           | Inr ss \<Rightarrow> Inr ((case r of None \<Rightarrow> ''null'' | Some s \<Rightarrow> s) # ss)))"
| "json_members H stk [] = Inr []"
| "json_members H stk ((k, v) # ms) =
     (case json_value H stk v of
        Inl e \<Rightarrow> Inl e
      | Inr r \<Rightarrow>
          (case json_members H stk ms of
             Inl e \<Rightarrow> Inl e
           | Inr ss \<Rightarrow>
               Inr (case r of None \<Rightarrow> ss | Some s \<Rightarrow> (json_quote k @ '':'' @ s) # ss)))"
  by pat_completeness auto

termination
  by (relation "inv_image (less_than <*lex*> less_than)
        (\<lambda>x. case x of
            Inl (H, stk, v) \<Rightarrow> (unvisited H stk, size v)
          | Inr (Inl (H, stk, xs)) \<Rightarrow> (unvisited H stk, size_list size xs)
          | Inr (Inr (H, stk, ms)) \<Rightarrow> (unvisited H stk, size_list (\<lambda>kv. size (snd kv)) ms))")
     (auto simp: unvisited_push)

definition JSON_stringify :: "store \<Rightarrow> jsval \<Rightarrow> js_error + string option" where
  "JSON_stringify st v = json_value (objs st) [] v"

text \<open>A value interpolated into a template literal; \<^verbatim>\<open>undefined\<close> prints as its name.\<close>

definition interpolate :: "string option \<Rightarrow> string" where
  "interpolate r = (case r of None \<Rightarrow> ''undefined'' | Some s \<Rightarrow> s)"

subsection \<open>The host tree API\<close>

text \<open>
  The DOM is the host's, not the library's. Which names the host accepts for an element
  and for an attribute differs between DOM versions, so both tests are parameters.
  Of the API, the model keeps what the library calls: creating an element, setting an
  attribute and the class name, adding a listener, setting the text content and
  appending a child. In an HTML document element and attribute names are lower-cased.
\<close>

record host =
  valid_element_name :: "string \<Rightarrow> bool"
  valid_attribute_name :: "string \<Rightarrow> bool"

definition ascii_lower_char :: "char \<Rightarrow> char" where
  "ascii_lower_char c =
     (case map_of (zip ''ABCDEFGHIJKLMNOPQRSTUVWXYZ'' ''abcdefghijklmnopqrstuvwxyz'') c of
        Some l \<Rightarrow> l
      | None \<Rightarrow> c)"

definition ascii_lower :: "string \<Rightarrow> string" where
  "ascii_lower s = map ascii_lower_char s"

definition update_node :: "nat \<Rightarrow> (node \<Rightarrow> node) \<Rightarrow> store \<Rightarrow> store" where
  "update_node el f st = st\<lparr>nodes := (nodes st)[el := f (nodes st ! el)]\<rparr>"

definition createElement :: "host \<Rightarrow> string \<Rightarrow> store \<Rightarrow> js_error + nat \<times> store" where
  "createElement h tag st =
     (if valid_element_name h tag then
        Inr (length (nodes st),
             st\<lparr>nodes := nodes st @
               [\<lparr>localName = ascii_lower tag, attributes = [], listeners = [],
                 childNodes = [], parentNode = None\<rparr>]\<rparr>)
      else Inl (DOMException ''InvalidCharacterError''
                  ''The tag name provided is not a valid name.''))"

definition setAttribute :: "host \<Rightarrow> nat \<Rightarrow> string \<Rightarrow> jsval \<Rightarrow> store \<Rightarrow> js_error + store" where
  "setAttribute h el name v st =
     (if valid_attribute_name h name then
        Inr (update_node el
               (\<lambda>n. n\<lparr>attributes := assign_field (ascii_lower name) (to_string v) (attributes n)\<rparr>) st)
      else Inl (DOMException ''InvalidCharacterError''
                  ''The attribute name provided is not a valid name.''))"

definition getAttribute :: "store \<Rightarrow> nat \<Rightarrow> string \<Rightarrow> string option" where
  "getAttribute st el name = map_of (attributes (nodes st ! el)) (ascii_lower name)"

text \<open>\<^verbatim>\<open>element.className = v\<close> writes the \<^verbatim>\<open>class\<close> attribute.\<close>

definition set_className :: "nat \<Rightarrow> jsval \<Rightarrow> store \<Rightarrow> store" where
  "set_className el v st =
     update_node el (\<lambda>n. n\<lparr>attributes := assign_field ''class'' (to_string v) (attributes n)\<rparr>) st"

text \<open>A listener already registered for the same type is not registered again.\<close>

definition addEventListener :: "nat \<Rightarrow> string \<Rightarrow> jsval \<Rightarrow> store \<Rightarrow> store" where
  "addEventListener el ty cb st =
     update_node el
       (\<lambda>n. n\<lparr>listeners :=
               (if (ty, cb) \<in> set (listeners n) then listeners n else listeners n @ [(ty, cb)])\<rparr>) st"

text \<open>
  \<^verbatim>\<open>element.textContent = s\<close> replaces all children by one text node, or by nothing when
  \<open>s\<close> is empty; the element children it removes lose their parent.
\<close>

definition detach :: "dom_child \<Rightarrow> node list \<Rightarrow> node list" where
  "detach c ns = (case c of Element a \<Rightarrow> ns[a := (ns ! a)\<lparr>parentNode := None\<rparr>] | Text s \<Rightarrow> ns)"

definition set_textContent :: "nat \<Rightarrow> string \<Rightarrow> store \<Rightarrow> store" where
  "set_textContent el s st =
     (let ns = fold detach (childNodes (nodes st ! el)) (nodes st)
      in st\<lparr>nodes := ns[el := (ns ! el)\<lparr>childNodes := (if s = [] then [] else [Text s])\<rparr>]\<rparr>)"

text \<open>
  \<^verbatim>\<open>parent.appendChild(child)\<close>: refused when the child is the parent or one of its
  ancestors; otherwise the child leaves its present parent, if it has one, and becomes
  the last child of the new one.
\<close>

fun inclusive_ancestor :: "node list \<Rightarrow> nat \<Rightarrow> nat \<Rightarrow> nat \<Rightarrow> bool" where
  "inclusive_ancestor ns 0 c p = (c = p)"
| "inclusive_ancestor ns (Suc fuel) c p =
     (c = p \<or> (case parentNode (ns ! p) of None \<Rightarrow> False
               | Some q \<Rightarrow> inclusive_ancestor ns fuel c q))"

definition appendChild :: "nat \<Rightarrow> nat \<Rightarrow> store \<Rightarrow> js_error + store" where
  "appendChild p c st =
     (let ns = nodes st in
      if inclusive_ancestor ns (length ns) c p then
        Inl (DOMException ''HierarchyRequestError''
               ''The new child element contains the parent.'')
      else
        let ns1 = (case parentNode (ns ! c) of
                     None \<Rightarrow> ns
                   | Some q \<Rightarrow> ns[q := (ns ! q)\<lparr>childNodes := removeAll (Element c) (childNodes (ns ! q))\<rparr>]);
            ns2 = ns1[c := (ns1 ! c)\<lparr>parentNode := Some p\<rparr>];
            ns3 = ns2[p := (ns2 ! p)\<lparr>childNodes := childNodes (ns2 ! p) @ [Element c]\<rparr>]
        in Inr (st\<lparr>nodes := ns3\<rparr>))"

definition console_error :: "jsval list \<Rightarrow> store \<Rightarrow> store" where
  "console_error args st = st\<lparr>console := console st @ [args]\<rparr>"

section \<open>The library\<close>

subsection \<open>\<^verbatim>\<open>createNativeDOMElement\<close> (index.ts, lines 39 to 73)\<close>

text \<open>The inner loop of the \<^verbatim>\<open>data\<close> branch (lines 52 to 54).\<close>

fun set_data_attributes ::
    "host \<Rightarrow> nat \<Rightarrow> (string \<times> jsval) list \<Rightarrow> store \<Rightarrow> store \<times> (js_error + unit)" where
  "set_data_attributes h element [] st = (st, Inr ())"
| "set_data_attributes h element ((dataKey, dataValue) # rest) st =
     (case setAttribute h element (''data-'' @ dataKey) (JStr (to_string dataValue)) st of
        Inl e \<Rightarrow> (st, Inl e)
      | Inr st1 \<Rightarrow> set_data_attributes h element rest st1)"

text \<open>The body of the loop over the properties (lines 44 to 58), for one entry.\<close>

definition apply_prop ::
    "host \<Rightarrow> nat \<Rightarrow> string \<times> jsval \<Rightarrow> store \<Rightarrow> store \<times> (js_error + unit)" where
  "apply_prop h element kv st =
     (let key = fst kv; val = snd kv in
      if take 2 key = ''on'' \<and> typeof val = ''function'' then
        (let eventType = drop 2 key in (addEventListener element eventType val st, Inr ()))
      else if key = ''className'' then
        (set_className element val st, Inr ())
      else if key = ''data'' \<and> typeof val = ''object'' then
        (case Object_entries st val of
           Inl e \<Rightarrow> (st, Inl e)
         | Inr entries \<Rightarrow> set_data_attributes h element entries st)
      else
        (case setAttribute h element key val st of
           Inl e \<Rightarrow> (st, Inl e)
         | Inr st1 \<Rightarrow> (st1, Inr ())))"

fun apply_props ::
    "host \<Rightarrow> nat \<Rightarrow> (string \<times> jsval) list \<Rightarrow> store \<Rightarrow> store \<times> (js_error + unit)" where
  "apply_props h element [] st = (st, Inr ())"
| "apply_props h element (kv # rest) st =
     (case apply_prop h element kv st of
        (st1, Inl e) \<Rightarrow> (st1, Inl e)
      | (st1, Inr u) \<Rightarrow> apply_props h element rest st1)"

text \<open>The loop over a list of children (lines 65 to 69).\<close>

fun append_children :: "nat \<Rightarrow> jsval list \<Rightarrow> store \<Rightarrow> store \<times> (js_error + unit)" where
  "append_children element [] st = (st, Inr ())"
| "append_children element (child # rest) st =
     (case child of
        JElem c \<Rightarrow>
          (case appendChild element c st of
             Inl e \<Rightarrow> (st, Inl e)
           | Inr st1 \<Rightarrow> append_children element rest st1)
      | _ \<Rightarrow> append_children element rest st)"

definition apply_children :: "nat \<Rightarrow> jsval \<Rightarrow> store \<Rightarrow> store \<times> (js_error + unit)" where
  "apply_children element children st =
     (if typeof children = ''string'' \<or> typeof children = ''number'' then
        (set_textContent element (to_string children) st, Inr ())
      else if Array_isArray children then
        (case children of JArr xs \<Rightarrow> append_children element xs st | _ \<Rightarrow> (st, Inr ()))
      else (st, Inr ()))"

text \<open>
  \<open>props\<close> is the reference to the bag; the parameter default of \<open>children\<close> replaces
  \<^verbatim>\<open>undefined\<close> by the empty list.
\<close>

definition createNativeDOMElement ::
    "host \<Rightarrow> string \<Rightarrow> jsval \<Rightarrow> jsval \<Rightarrow> store \<Rightarrow> store \<times> (js_error + nat)" where
  "createNativeDOMElement h tag props children0 st =
     (let children = (if children0 = JUndefined then JArr [] else children0) in
      case createElement h tag st of
        Inl e \<Rightarrow> (st, Inl e)
      | Inr (element, st1) \<Rightarrow>
          (case Object_entries st1 props of
             Inl e \<Rightarrow> (st1, Inl e)
           | Inr entries \<Rightarrow>
               (case apply_props h element entries st1 of
                  (st2, Inl e) \<Rightarrow> (st2, Inl e)
                | (st2, Inr u) \<Rightarrow>
                    (case apply_children element children st2 of
                       (st3, Inl e) \<Rightarrow> (st3, Inl e)
                     | (st3, Inr u') \<Rightarrow> (st3, Inr element)))))"

subsection \<open>\<^verbatim>\<open>createNativeElementFunction\<close> (index.ts, lines 87 to 159)\<close>

text \<open>The error of the last branch (lines 130 to 137).\<close>

definition invalid_parameters :: "string \<Rightarrow> store \<Rightarrow> jsval \<Rightarrow> jsval \<Rightarrow> js_error" where
  "invalid_parameters tag st param1 param2 =
     (case JSON_stringify st param1 of
        Inl e \<Rightarrow> e
      | Inr s1 \<Rightarrow>
          (case JSON_stringify st param2 of
             Inl e \<Rightarrow> e
           | Inr s2 \<Rightarrow>
               Error (join [CHR 0x0A]
                 [''Invalid parameters for <'' @ tag @ ''> element creation.'',
                  ''Received:'',
                  ''- param1: '' @ interpolate s1 @ '' ('' @ typeof param1 @ '')'',
                  ''- param2: '' @ interpolate s2 @ '' ('' @ typeof param2 @ '')''])))"

text \<open>
  The chain of parameter patterns (lines 94 to 138). \<open>props0\<close> and \<open>children0\<close> are the
  initial values of the two variables, the fresh \<^verbatim>\<open>{}\<close> and \<^verbatim>\<open>[]\<close>.
\<close>

definition plain_object :: "jsval \<Rightarrow> bool" where
  "plain_object v \<longleftrightarrow>
     typeof v = ''object'' \<and> v \<noteq> JNull \<and> \<not> Array_isArray v \<and> \<not> instanceof_HTMLElement v"

definition resolve_params ::
    "string \<Rightarrow> store \<Rightarrow> jsval \<Rightarrow> jsval \<Rightarrow> jsval \<Rightarrow> jsval \<Rightarrow> js_error + jsval \<times> jsval" where
  "resolve_params tag st props0 children0 param1 param2 =
     (if param1 = JNull \<and> param2 = JNull then Inr (props0, children0)
      else if Array_isArray param1 \<and> param2 = JNull then Inr (props0, param1)
      else if (typeof param1 = ''string'' \<or> typeof param1 = ''number'') \<and> param2 = JNull then
        Inr (props0, param1)
      else if plain_object param1 \<and> param2 = JNull then Inr (param1, children0)
      else if plain_object param1 \<and> Array_isArray param2 then Inr (param1, param2)
      else if plain_object param1 \<and> (typeof param2 = ''string'' \<or> typeof param2 = ''number'') then
        Inr (param1, param2)
      else Inl (invalid_parameters tag st param1 param2))"

text \<open>\<^verbatim>\<open>v.split(' ')\<close>: only a string has the method.\<close>

fun js_split :: "jsval \<Rightarrow> js_error + string list" where
  "js_split (JStr s) = Inr (split_space s)"
| "js_split v = Inl (TypeError ''split is not a function'')"

text \<open>The merge of \<^verbatim>\<open>className\<close> and \<^verbatim>\<open>classes\<close> (lines 141 to 151).\<close>

definition merge_classes :: "jsval \<Rightarrow> store \<Rightarrow> store \<times> (js_error + unit)" where
  "merge_classes props st =
     (let cn = get_prop st props ''className''; cl = get_prop st props ''classes'' in
      if truthy cn \<or> truthy cl then
        (case js_split (if truthy cn then cn else JStr []) of
           Inl e \<Rightarrow> (st, Inl e)
         | Inr classNameList \<Rightarrow>
             (case js_split (if truthy cl then cl else JStr []) of
                Inl e \<Rightarrow> (st, Inl e)
              | Inr classesList \<Rightarrow>
                  (let uniqueClasses = new_Set (filter (\<lambda>s. s \<noteq> []) (classNameList @ classesList));
                       st1 = set_prop props ''className'' (JStr (join '' '' uniqueClasses)) st;
                       st2 = delete_prop props ''classes'' st1
                   in (st2, Inr ()))))
      else (st, Inr ()))"

text \<open>The \<^verbatim>\<open>try\<close> block (lines 93 to 153).\<close>

definition factory_try ::
    "host \<Rightarrow> string \<Rightarrow> jsval \<Rightarrow> jsval \<Rightarrow> jsval \<Rightarrow> jsval \<Rightarrow> store \<Rightarrow> store \<times> (js_error + nat)" where
  "factory_try h tag props0 children0 param1 param2 st =
     (case resolve_params tag st props0 children0 param1 param2 of
        Inl e \<Rightarrow> (st, Inl e)
      | Inr (props, children) \<Rightarrow>
          (case merge_classes props st of
             (st1, Inl e) \<Rightarrow> (st1, Inl e)
           | (st1, Inr u) \<Rightarrow> createNativeDOMElement h tag props children st1))"

definition default_null :: "jsval \<Rightarrow> jsval" where
  "default_null v = (if v = JUndefined then JNull else v)"

text \<open>
  The factory for \<open>tag\<close>, applied to two arguments (a missing argument is
  \<^verbatim>\<open>undefined\<close>, which the parameter default turns into \<^verbatim>\<open>null\<close>). The \<^verbatim>\<open>catch\<close> clause
  logs and rethrows.
\<close>

definition createNativeElementFunction ::
    "host \<Rightarrow> string \<Rightarrow> jsval \<Rightarrow> jsval \<Rightarrow> store \<Rightarrow> store \<times> (js_error + nat)" where
  "createNativeElementFunction h tag arg1 arg2 st =
     (let param1 = default_null arg1;
          param2 = default_null arg2;
          (props0, st0) = new_object st;
          children0 = JArr []
      in case factory_try h tag props0 children0 param1 param2 st0 of
           (st1, Inl error) \<Rightarrow>
             (console_error [JStr (''Error creating '' @ tag @ '' element:''), JStr (message error)] st1,
              Inl error)
         | (st1, Inr element) \<Rightarrow> (st1, Inr element))"

section \<open>The specification, in its own words\<close>

subsection \<open>Parameter shapes and class names\<close>

text \<open>
  The shapes the specification distinguishes in a parameter: absent, a list, a scalar
  (string or number), a plain object (not a list, not an element, not null), anything else.
\<close>

datatype shape = Absent | ListShape | Scalar | PlainObject | OtherShape

fun shape_of :: "jsval \<Rightarrow> shape" where
  "shape_of JUndefined = Absent"
| "shape_of JNull = Absent"
| "shape_of (JArr xs) = ListShape"
| "shape_of (JStr s) = Scalar"
| "shape_of (JNum n) = Scalar"
| "shape_of (JObj a) = PlainObject"
| "shape_of v = OtherShape"

text \<open>
  The six patterns of the specification, in its order; \<open>None\<close> is its seventh line,
  the failure.
\<close>

fun spec_resolve :: "jsval \<Rightarrow> jsval \<Rightarrow> jsval \<Rightarrow> jsval \<Rightarrow> (jsval \<times> jsval) option" where
  "spec_resolve empty_props empty_children p1 p2 =
     (case (shape_of p1, shape_of p2) of
        (Absent, Absent) \<Rightarrow> Some (empty_props, empty_children)
      | (ListShape, Absent) \<Rightarrow> Some (empty_props, p1)
      | (Scalar, Absent) \<Rightarrow> Some (empty_props, p1)
      | (PlainObject, Absent) \<Rightarrow> Some (p1, empty_children)
      | (PlainObject, ListShape) \<Rightarrow> Some (p1, p2)
      | (PlainObject, Scalar) \<Rightarrow> Some (p1, p2)
      | _ \<Rightarrow> None)"

text \<open>
  The class-name merge as the specification words it: both values split on whitespace,
  the non-empty tokens of \<^verbatim>\<open>className\<close> first, then those of \<^verbatim>\<open>classes\<close>, duplicates removed
  keeping the first occurrence, rejoined with single spaces.
\<close>

definition is_whitespace :: "char \<Rightarrow> bool" where
  "is_whitespace c \<longleftrightarrow> c \<in> set [CHR '' '', CHR 0x09, CHR 0x0A, CHR 0x0B, CHR 0x0C, CHR 0x0D]"

fun split_whitespace :: "string \<Rightarrow> string list" where
  "split_whitespace [] = [[]]"
| "split_whitespace (c # cs) =
     (if is_whitespace c then [] # split_whitespace cs
      else (c # hd (split_whitespace cs)) # tl (split_whitespace cs))"

fun first_occurrences :: "'a list \<Rightarrow> 'a list" where
  "first_occurrences [] = []"
| "first_occurrences (x # xs) = x # first_occurrences (filter (\<lambda>y. y \<noteq> x) xs)"

definition spec_merged_className :: "string \<Rightarrow> string \<Rightarrow> string" where
  "spec_merged_className cn cl =
     join '' '' (first_occurrences
       (filter (\<lambda>t. t \<noteq> []) (split_whitespace cn) @ filter (\<lambda>t. t \<noteq> []) (split_whitespace cl)))"

text \<open>
  The same merge with the split the code performs, on the space character only.
  \<open>class_text\<close> is the string the code splits for a value that is a string or falsy.
\<close>

definition class_text :: "jsval \<Rightarrow> string" where
  "class_text v = (case v of JStr s \<Rightarrow> s | _ \<Rightarrow> [])"

definition merged_className :: "string \<Rightarrow> string \<Rightarrow> string" where
  "merged_className cn cl =
     join '' '' (first_occurrences
       (filter (\<lambda>t. t \<noteq> []) (split_space cn) @ filter (\<lambda>t. t \<noteq> []) (split_space cl)))"


subsection \<open>Children\<close>

text \<open>The elements among the entries of a list of children, in order.\<close>

fun element_refs :: "jsval list \<Rightarrow> nat list" where
  "element_refs [] = []"
| "element_refs (JElem c # xs) = c # element_refs xs"
| "element_refs (v # xs) = element_refs xs"

text \<open>
  The entries of a list of children that are elements refer to nodes of the store.
\<close>

definition known_children :: "store \<Rightarrow> jsval \<Rightarrow> bool" where
  "known_children st children =
     (case children of
        JArr xs \<Rightarrow> list_all (\<lambda>c. c < length (nodes st)) (element_refs xs)
      | _ \<Rightarrow> True)"

text \<open>
  The child list of a freshly built node, as a function of the children value: one text
  node for a scalar (none when its string form is empty), and for a list its elements in
  order; an element listed twice is a child once, at the place of its last entry.
\<close>

definition expected_children :: "jsval \<Rightarrow> dom_child list" where
  "expected_children children =
     (if typeof children = ''string'' \<or> typeof children = ''number'' then
        (if to_string children = [] then [] else [Text (to_string children)])
      else (case children of
              JArr xs \<Rightarrow> map Element (remdups (element_refs xs))
            | _ \<Rightarrow> []))"

text \<open>
  Auxiliary notions for the proofs: the node under construction has no parent and exactly
  the element children \<open>ys\<close>, each of which names it as parent; a child of \<open>q\<close> is moved away
  when it is among \<open>cs\<close> and \<open>q\<close> was its parent; a step changes nothing but the attributes
  and listeners of one node.
\<close>

definition children_inv :: "store \<Rightarrow> nat \<Rightarrow> nat list \<Rightarrow> bool" where
  "children_inv st el ys \<longleftrightarrow>
     el < length (nodes st) \<and> parentNode (nodes st ! el) = None
     \<and> childNodes (nodes st ! el) = map Element ys
     \<and> (\<forall>c \<in> set ys. c < length (nodes st) \<and> c \<noteq> el \<and> parentNode (nodes st ! c) = Some el)"

definition moved_from :: "store \<Rightarrow> nat \<Rightarrow> nat list \<Rightarrow> dom_child \<Rightarrow> bool" where
  "moved_from st q cs ch \<longleftrightarrow> (\<exists>c \<in> set cs. ch = Element c \<and> parentNode (nodes st ! c) = Some q)"

definition attrs_only :: "nat \<Rightarrow> store \<Rightarrow> store \<Rightarrow> bool" where
  "attrs_only el st st' \<longleftrightarrow>
     (\<exists>A L. nodes st' = (nodes st)[el := (nodes st ! el)\<lparr>attributes := A, listeners := L\<rparr>])"

subsection \<open>Two calls\<close>

text \<open>
  Two stores show the same to the property loop when the two nodes under construction are
  equal and every object has the same properties. A text child is a child that is not an
  element.
\<close>

definition same_view :: "store \<Rightarrow> nat \<Rightarrow> store \<Rightarrow> nat \<Rightarrow> bool" where
  "same_view S el S' el' \<longleftrightarrow>
     el < length (nodes S) \<and> el' < length (nodes S') \<and> nodes S ! el = nodes S' ! el'
     \<and> (\<forall>b. fields_of S b = fields_of S' b)"

definition is_text :: "dom_child \<Rightarrow> bool" where
  "is_text ch = (case ch of Text s \<Rightarrow> True | Element c \<Rightarrow> False)"

section \<open>Example inputs\<close>

definition example_host :: host where
  "example_host =
     \<lparr>valid_element_name = (\<lambda>s. s \<noteq> []),
      valid_attribute_name = (\<lambda>s. s \<noteq> [] \<and> CHR '' '' \<notin> set s)\<rparr>"

definition empty_store :: store where
  "empty_store = \<lparr>objs = [], nodes = [], console = []\<rparr>"

definition null_data_store :: store where
  "null_data_store = \<lparr>objs = [[(''data'', JNull)]], nodes = [], console = []\<rparr>"


definition class_store :: store where
  "class_store =
     \<lparr>objs = [[(''className'', JStr ''a b''), (''classes'', JStr ''b c'')]],
      nodes = [], console = []\<rparr>"

definition tab_class_store :: store where
  "tab_class_store =
     \<lparr>objs = [[(''className'', JStr [CHR ''a'', CHR 0x09, CHR ''b''])]],
      nodes = [], console = []\<rparr>"

definition empty_classes_store :: store where
  "empty_classes_store = \<lparr>objs = [[(''classes'', JStr [])]], nodes = [], console = []\<rparr>"




definition item_store :: store where
  "item_store =
     \<lparr>objs = [],
      nodes = [\<lparr>localName = ''li'', attributes = [], listeners = [], childNodes = [Text ''one''],
                parentNode = None\<rparr>],
      console = []\<rparr>"

definition item_store_once :: store where
  "item_store_once =
     \<lparr>objs = [[]],
      nodes = [\<lparr>localName = ''li'', attributes = [], listeners = [], childNodes = [Text ''one''],
                parentNode = Some 1\<rparr>,
               \<lparr>localName = ''ul'', attributes = [], listeners = [],
                childNodes = [Element 0], parentNode = None\<rparr>],
      console = []\<rparr>"

definition item_store_twice :: store where
  "item_store_twice =
     \<lparr>objs = [[], []],
      nodes = [\<lparr>localName = ''li'', attributes = [], listeners = [], childNodes = [Text ''one''],
                parentNode = Some 2\<rparr>,
               \<lparr>localName = ''ul'', attributes = [], listeners = [],
                childNodes = [], parentNode = None\<rparr>,
               \<lparr>localName = ''ul'', attributes = [], listeners = [],
                childNodes = [Element 0], parentNode = None\<rparr>],
      console = []\<rparr>"

definition menu_store :: store where
  "menu_store =
     \<lparr>objs = [[(''className'', JStr ''menu''), (''classes'', JStr ''wide menu'')]],
      nodes = [\<lparr>localName = ''li'', attributes = [], listeners = [], childNodes = [Text ''one''],
                parentNode = None\<rparr>],
      console = []\<rparr>"

definition menu_store_once :: store where
  "menu_store_once =
     \<lparr>objs = [[(''className'', JStr ''menu wide'')], []],
      nodes = [\<lparr>localName = ''li'', attributes = [], listeners = [], childNodes = [Text ''one''],
                parentNode = Some 1\<rparr>,
               \<lparr>localName = ''ul'', attributes = [(''class'', ''menu wide'')], listeners = [],
                childNodes = [Element 0], parentNode = None\<rparr>],
      console = []\<rparr>"

section \<open>Properties\<close>

lemmas library_defs =
  createNativeElementFunction_def factory_try_def resolve_params_def plain_object_def
  default_null_def new_object_def merge_classes_def fields_of_def new_Set_def
  createNativeDOMElement_def createElement_def apply_prop_def apply_children_def
  setAttribute_def set_className_def addEventListener_def set_textContent_def appendChild_def
  update_node_def ascii_lower_def ascii_lower_char_def console_error_def Let_def

subsection \<open>Parameter resolution\<close>

lemma resolve_params_spec:
  "resolve_params tag st props0 children0 (default_null arg1) (default_null arg2) =
     (case spec_resolve props0 children0 arg1 arg2 of
        Some pc \<Rightarrow> Inr pc
      | None \<Rightarrow> Inl (invalid_parameters tag st (default_null arg1) (default_null arg2)))"
  by (cases arg1; cases arg2) (simp_all add: resolve_params_def default_null_def plain_object_def)

lemma factory_resolution_error:
  assumes "resolve_params tag (snd (new_object st)) (fst (new_object st)) (JArr [])
             (default_null arg1) (default_null arg2) = Inl e"
  shows "createNativeElementFunction h tag arg1 arg2 st =
           (console_error [JStr (''Error creating '' @ tag @ '' element:''), JStr (message e)]
              (snd (new_object st)), Inl e)"
  using assms
  by (simp add: createNativeElementFunction_def factory_try_def Let_def case_prod_beta)



subsection \<open>What each operation leaves alone\<close>

lemma update_node_simps [simp]:
  "nodes (update_node el f st) = (nodes st)[el := f (nodes st ! el)]"
  "objs (update_node el f st) = objs st"
  "console (update_node el f st) = console st"
  by (simp_all add: update_node_def)

lemma setAttribute_frame:
  "setAttribute h el k v st = Inr st' \<Longrightarrow> objs st' = objs st \<and> console st' = console st \<and> length (nodes st') = length (nodes st)"
  by (auto simp: setAttribute_def split: if_splits)

lemma set_data_attributes_frame:
  "set_data_attributes h el es st = (st', r) \<Longrightarrow> objs st' = objs st \<and> console st' = console st \<and> length (nodes st') = length (nodes st)"
proof (induction es arbitrary: st)
  case Nil
  then show ?case by simp
next
  case (Cons kv es)
  obtain k v where kv: "kv = (k, v)" by (cases kv)
  show ?case
  proof (cases "setAttribute h el (''data-'' @ k) (JStr (to_string v)) st")
    case (Inl e)
    with Cons.prems kv show ?thesis by simp
  next
    case (Inr st1)
    with Cons.prems kv have "set_data_attributes h el es st1 = (st', r)" by simp
    from Cons.IH[OF this] setAttribute_frame[OF Inr] show ?thesis by simp
  qed
qed

lemma apply_prop_frame:
  "apply_prop h el kv st = (st', r) \<Longrightarrow> objs st' = objs st \<and> console st' = console st \<and> length (nodes st') = length (nodes st)"
  by (auto simp: apply_prop_def Let_def addEventListener_def set_className_def
           split: if_splits sum.splits dest: setAttribute_frame set_data_attributes_frame)

lemma apply_props_frame:
  "apply_props h el es st = (st', r) \<Longrightarrow> objs st' = objs st \<and> console st' = console st \<and> length (nodes st') = length (nodes st)"
proof (induction es arbitrary: st)
  case Nil
  then show ?case by simp
next
  case (Cons kv es)
  obtain st1 r1 where s1: "apply_prop h el kv st = (st1, r1)" by (cases "apply_prop h el kv st")
  show ?case
  proof (cases r1)
    case (Inl e)
    with Cons.prems s1 apply_prop_frame[OF s1] show ?thesis by simp
  next
    case (Inr u)
    with Cons.prems s1 have "apply_props h el es st1 = (st', r)" by simp
    from Cons.IH[OF this] apply_prop_frame[OF s1] show ?thesis by simp
  qed
qed

lemma appendChild_frame:
  "appendChild p c st = Inr st' \<Longrightarrow> objs st' = objs st \<and> console st' = console st \<and> length (nodes st') = length (nodes st)"
  by (auto simp: appendChild_def Let_def split: if_splits option.splits)

lemma append_children_frame:
  "append_children el xs st = (st', r) \<Longrightarrow> objs st' = objs st \<and> console st' = console st \<and> length (nodes st') = length (nodes st)"
proof (induction xs arbitrary: st)
  case Nil
  then show ?case by simp
next
  case (Cons x xs)
  show ?case
  proof (cases x)
    case (JElem c)
    show ?thesis
    proof (cases "appendChild el c st")
      case (Inl e)
      with Cons.prems JElem show ?thesis by simp
    next
      case (Inr st1)
      with Cons.prems JElem have "append_children el xs st1 = (st', r)" by simp
      from Cons.IH[OF this] appendChild_frame[OF Inr] show ?thesis by simp
    qed
  qed (use Cons in simp_all)
qed

lemma length_fold_detach [simp]: "length (fold detach cs ns) = length ns"
  by (induction cs arbitrary: ns) (auto simp: detach_def split: dom_child.splits)

lemma apply_children_frame:
  "apply_children el ch st = (st', r) \<Longrightarrow> objs st' = objs st \<and> console st' = console st \<and> length (nodes st') = length (nodes st)"
  by (auto simp: apply_children_def set_textContent_def Let_def
           split: if_splits jsval.splits dest: append_children_frame)

lemma createElement_frame:
  "createElement h tag st = Inr (el, st') \<Longrightarrow> objs st' = objs st \<and> console st' = console st \<and> el = length (nodes st) \<and> length (nodes st') = Suc (length (nodes st))"
  by (auto simp: createElement_def split: if_splits)

lemma createNativeDOMElement_frame:
  assumes "createNativeDOMElement h tag props ch st = (st', r)"
  shows "objs st' = objs st \<and> console st' = console st"
  using assms
  by (auto simp: createNativeDOMElement_def Let_def
           split: sum.splits prod.splits
           dest!: createElement_frame apply_props_frame apply_children_frame)

lemma merge_classes_frame:
  "merge_classes props st = (st', r) \<Longrightarrow> nodes st' = nodes st \<and> console st' = console st"
  by (cases props) (auto simp: merge_classes_def Let_def split: if_splits sum.splits)

lemma factory_try_console:
  assumes "factory_try h tag props0 ch0 p1 p2 st = (st', r)"
  shows "console st' = console st"
  using assms
  by (auto simp: factory_try_def split: sum.splits prod.splits
           dest!: merge_classes_frame createNativeDOMElement_frame)


subsection \<open>The error for unrecognized parameters\<close>

text \<open>
  When both parameters serialize, the error of the last branch is the \<^verbatim>\<open>Error\<close> whose
  message names the tag and gives, for each parameter, its serialization and its
  \<^verbatim>\<open>typeof\<close>; the node list is unchanged.
\<close>

lemma invalid_parameters_message:
  assumes "spec_resolve (fst (new_object st)) (JArr []) arg1 arg2 = None"
    and "JSON_stringify (snd (new_object st)) (default_null arg1) = Inr s1"
    and "JSON_stringify (snd (new_object st)) (default_null arg2) = Inr s2"
  shows "\<exists>st'. createNativeElementFunction h tag arg1 arg2 st =
           (st', Inl (Error (join [CHR 0x0A]
                 [''Invalid parameters for <'' @ tag @ ''> element creation.'',
                  ''Received:'',
                  ''- param1: '' @ interpolate s1 @ '' ('' @ typeof (default_null arg1) @ '')'',
                  ''- param2: '' @ interpolate s2 @ '' ('' @ typeof (default_null arg2) @ '')''])))
         \<and> nodes st' = nodes st"
proof -
  from assms(1) have "resolve_params tag (snd (new_object st)) (fst (new_object st)) (JArr [])
               (default_null arg1) (default_null arg2)
      = Inl (invalid_parameters tag (snd (new_object st)) (default_null arg1) (default_null arg2))"
    unfolding resolve_params_spec by simp
  from factory_resolution_error[OF this] assms(2,3) show ?thesis
    by (simp add: invalid_parameters_def console_error_def new_object_def)
qed

text \<open>
  C2. Every pair of parameters matching none of the six shapes should raise the
  invalid-parameters error, whose message names the tag and both parameters' serialized
  value and type. The message is built with \<^verbatim>\<open>JSON.stringify\<close>, which itself throws on a
  BigInt (and on an object containing itself). For the call \<^verbatim>\<open>div(42, 10n)\<close> the error
  that reaches the caller is therefore the serializer's \<^verbatim>\<open>TypeError\<close>: its message names
  neither the tag nor a parameter. No node is created.
\<close>

theorem bigint_parameter_error:
  "createNativeElementFunction example_host ''div'' (JNum 42) (JBigInt 10) empty_store =
     (\<lparr>objs = [[]], nodes = [],
       console = [[JStr ''Error creating div element:'',
                   JStr ''Do not know how to serialize a BigInt'']]\<rparr>,
      Inl (TypeError ''Do not know how to serialize a BigInt''))"
  by (simp add: createNativeElementFunction_def factory_try_def resolve_params_def
        plain_object_def invalid_parameters_def JSON_stringify_def console_error_def
        new_object_def empty_store_def default_null_def string_of_int_def string_of_nat.simps)

subsection \<open>The catch clause\<close>

text \<open>
  C7. Every error raised inside the \<^verbatim>\<open>try\<close> block, by the parameter resolution, the
  class-name merge or the builder, is logged once, with the tag and the error's message,
  and then raised again unchanged: the call returns that very error, and the store is the
  one the \<^verbatim>\<open>try\<close> block left, with the one log entry added to the console. A call that
  succeeds logs nothing.
\<close>

theorem catch_logs_and_rethrows:
  "(\<forall>st1 e.
      factory_try h tag (fst (new_object st)) (JArr []) (default_null arg1) (default_null arg2)
        (snd (new_object st)) = (st1, Inl e) \<longrightarrow>
      createNativeElementFunction h tag arg1 arg2 st =
        (st1\<lparr>console := console st @
               [[JStr (''Error creating '' @ tag @ '' element:''), JStr (message e)]]\<rparr>, Inl e))
   \<and> (\<forall>st1 el.
      factory_try h tag (fst (new_object st)) (JArr []) (default_null arg1) (default_null arg2)
        (snd (new_object st)) = (st1, Inr el) \<longrightarrow>
      createNativeElementFunction h tag arg1 arg2 st = (st1, Inr el) \<and> console st1 = console st)"
proof (intro conjI allI impI)
  fix st1 e
  assume t: "factory_try h tag (fst (new_object st)) (JArr []) (default_null arg1)
               (default_null arg2) (snd (new_object st)) = (st1, Inl e)"
  from factory_try_console[OF t] have "console st1 = console st"
    by (simp add: new_object_def)
  with t show "createNativeElementFunction h tag arg1 arg2 st =
        (st1\<lparr>console := console st @
               [[JStr (''Error creating '' @ tag @ '' element:''), JStr (message e)]]\<rparr>, Inl e)"
    by (simp add: createNativeElementFunction_def Let_def case_prod_beta console_error_def)
next
  fix st1 el
  assume t: "factory_try h tag (fst (new_object st)) (JArr []) (default_null arg1)
               (default_null arg2) (snd (new_object st)) = (st1, Inr el)"
  then show "createNativeElementFunction h tag arg1 arg2 st = (st1, Inr el)"
    by (simp add: createNativeElementFunction_def Let_def case_prod_beta)
  from factory_try_console[OF t] show "console st1 = console st"
    by (simp add: new_object_def)
qed

lemma example_resolution_error:
  "factory_try example_host ''div'' (fst (new_object empty_store)) (JArr [])
      (default_null (JNum 42)) (default_null (JStr ''ignored'')) (snd (new_object empty_store))
   = (\<lparr>objs = [[]], nodes = [], console = []\<rparr>,
      Inl (Error (join [CHR 0x0A]
        [''Invalid parameters for <div> element creation.'', ''Received:'',
         ''- param1: 42 (number)'', ''- param2: '' @ json_quote ''ignored'' @ '' (string)''])))"
  by (simp add: factory_try_def resolve_params_def
        plain_object_def invalid_parameters_def JSON_stringify_def interpolate_def
        new_object_def empty_store_def default_null_def string_of_int_def string_of_nat.simps)

lemma example_build_error:
  "factory_try example_host ''div'' (fst (new_object null_data_store)) (JArr [])
      (default_null (JObj 0)) (default_null JUndefined) (snd (new_object null_data_store))
   = (\<lparr>objs = [[(''data'', JNull)], []],
       nodes = [\<lparr>localName = ''div'', attributes = [], listeners = [], childNodes = [],
                 parentNode = None\<rparr>],
       console = []\<rparr>,
      Inl (TypeError ''Cannot convert undefined or null to object''))"
  by (simp add: factory_try_def resolve_params_def plain_object_def merge_classes_def
        fields_of_def createNativeDOMElement_def createElement_def example_host_def
        apply_prop_def ascii_lower_def ascii_lower_char_def
        new_object_def null_data_store_def default_null_def)

theorem catch_logs_and_rethrows_witness:
  "createNativeElementFunction example_host ''div'' (JNum 42) (JStr ''ignored'') empty_store =
     (\<lparr>objs = [[]], nodes = [],
       console = [[JStr ''Error creating div element:'',
                   JStr (join [CHR 0x0A]
        [''Invalid parameters for <div> element creation.'', ''Received:'',
         ''- param1: 42 (number)'', ''- param2: '' @ json_quote ''ignored'' @ '' (string)''])]]\<rparr>,
      Inl (Error (join [CHR 0x0A]
        [''Invalid parameters for <div> element creation.'', ''Received:'',
         ''- param1: 42 (number)'', ''- param2: '' @ json_quote ''ignored'' @ '' (string)''])))
   \<and> createNativeElementFunction example_host ''div'' (JObj 0) JUndefined null_data_store =
     (\<lparr>objs = [[(''data'', JNull)], []],
       nodes = [\<lparr>localName = ''div'', attributes = [], listeners = [], childNodes = [],
                 parentNode = None\<rparr>],
       console = [[JStr ''Error creating div element:'',
                   JStr ''Cannot convert undefined or null to object'']]\<rparr>,
      Inl (TypeError ''Cannot convert undefined or null to object''))"
  using catch_logs_and_rethrows[of example_host "''div''" empty_store "JNum 42" "JStr ''ignored''"]
        catch_logs_and_rethrows[of example_host "''div''" null_data_store "JObj 0" JUndefined]
        example_resolution_error example_build_error
  by (simp add: empty_store_def null_data_store_def)


subsection \<open>Single entries of the properties bag\<close>

lemma map_of_assign_field:
  "map_of (assign_field k v xs) k' = (if k' = k then Some v else map_of xs k')"
  by (induction xs) auto








subsection \<open>Merging the class names\<close>

lemma Set_add_all_first_occurrences:
  "Set_add_all acc xs = acc @ first_occurrences (filter (\<lambda>x. x \<notin> set acc) xs)"
proof (induction xs arbitrary: acc)
  case Nil
  then show ?case by simp
next
  case (Cons x xs)
  have "filter (\<lambda>y. y \<notin> set (acc @ [x])) xs = filter (\<lambda>y. y \<noteq> x) (filter (\<lambda>y. y \<notin> set acc) xs)"
    by (induction xs) auto
  with Cons show ?case by simp
qed

lemma new_Set_first_occurrences: "new_Set xs = first_occurrences xs"
  by (simp add: new_Set_def Set_add_all_first_occurrences)

lemma set_first_occurrences [simp]: "set (first_occurrences xs) = set xs"
  by (induction xs rule: first_occurrences.induct) auto

lemma distinct_first_occurrences [simp]: "distinct (first_occurrences xs)"
  by (induction xs rule: first_occurrences.induct) auto

lemma filter_neq_absent: "a \<notin> set xs \<Longrightarrow> filter (\<lambda>y. y \<noteq> a) xs = xs"
  by (induction xs) auto

lemma first_occurrences_distinct: "distinct xs \<Longrightarrow> first_occurrences xs = xs"
  by (induction xs) (auto simp: filter_neq_absent)

lemma fields_of_set_prop:
  "a < length (objs st) \<Longrightarrow>
     fields_of (set_prop (JObj a) k v st) b =
       (if b = a then assign_field k v (fields_of st a) else fields_of st b)"
  by (simp add: fields_of_def)

lemma fields_of_delete_prop:
  "a < length (objs st) \<Longrightarrow>
     fields_of (delete_prop (JObj a) k st) b =
       (if b = a then filter (\<lambda>kv. fst kv \<noteq> k) (fields_of st a) else fields_of st b)"
  by (simp add: fields_of_def)

lemma length_objs_set_prop [simp]: "length (objs (set_prop p k v st)) = length (objs st)"
  by (cases p) simp_all

lemma length_objs_delete_prop [simp]: "length (objs (delete_prop p k st)) = length (objs st)"
  by (cases p) simp_all

lemma merge_classes_strings:
  assumes "a < length (objs st)"
    and "truthy (get_prop st (JObj a) ''className'') \<or> truthy (get_prop st (JObj a) ''classes'')"
    and "truthy (get_prop st (JObj a) ''className'') \<longrightarrow> (\<exists>s. get_prop st (JObj a) ''className'' = JStr s)"
    and "truthy (get_prop st (JObj a) ''classes'') \<longrightarrow> (\<exists>s. get_prop st (JObj a) ''classes'' = JStr s)"
  shows "merge_classes (JObj a) st =
           (delete_prop (JObj a) ''classes''
              (set_prop (JObj a) ''className''
                 (JStr (merged_className (class_text (get_prop st (JObj a) ''className''))
                                         (class_text (get_prop st (JObj a) ''classes'')))) st),
            Inr ())"
proof -
  have cn: "js_split (if truthy (get_prop st (JObj a) ''className'') then get_prop st (JObj a) ''className'' else JStr [])
            = Inr (split_space (class_text (get_prop st (JObj a) ''className'')))"
    using assms(3) by (cases "get_prop st (JObj a) ''className''") (auto simp: class_text_def)
  have cl: "js_split (if truthy (get_prop st (JObj a) ''classes'') then get_prop st (JObj a) ''classes'' else JStr [])
            = Inr (split_space (class_text (get_prop st (JObj a) ''classes'')))"
    using assms(4) by (cases "get_prop st (JObj a) ''classes''") (auto simp: class_text_def)
  show ?thesis
    unfolding merge_classes_def Let_def cn cl
    using assms(2) by (simp add: merged_className_def new_Set_first_occurrences)
qed

lemma merge_classes_falsy:
  assumes "\<not> truthy (get_prop st p ''className'')" "\<not> truthy (get_prop st p ''classes'')"
  shows "merge_classes p st = (st, Inr ())"
  using assms by (simp add: merge_classes_def)


lemma map_of_filter_key:
  "map_of (filter (\<lambda>kv. fst kv \<noteq> k) xs) k' = (if k' = k then None else map_of xs k')"
  by (induction xs) auto

lemma example_class_merge:
  "createNativeElementFunction example_host ''div'' (JObj 0) JUndefined class_store =
     (\<lparr>objs = [[(''className'', JStr ''a b c'')], []],
       nodes = [\<lparr>localName = ''div'', attributes = [(''class'', ''a b c'')], listeners = [],
                 childNodes = [], parentNode = None\<rparr>],
       console = []\<rparr>, Inr 0)"
  by (simp add: library_defs class_store_def example_host_def)

text \<open>
  C3, as the code has it. When \<^verbatim>\<open>className\<close> or \<^verbatim>\<open>classes\<close> is truthy (a non-empty string),
  and each truthy one of the two is a string, the factory splits both on the space
  character, keeps the non-empty tokens, those of \<^verbatim>\<open>className\<close> first, removes duplicates
  keeping first occurrences, stores the tokens joined by single spaces in
  \<^verbatim>\<open>props.className\<close> and deletes \<^verbatim>\<open>props.classes\<close>; the other properties are untouched.
  The call with \<^verbatim>\<open>className\<close> \<^verbatim>\<open>"a b"\<close> and \<^verbatim>\<open>classes\<close> \<^verbatim>\<open>"b c"\<close> builds a node whose class is
  \<^verbatim>\<open>"a b c"\<close> and which has no \<^verbatim>\<open>classes\<close> attribute.
\<close>

theorem class_name_merge:
  "(a < length (objs st)
      \<and> (truthy (get_prop st (JObj a) ''className'') \<or> truthy (get_prop st (JObj a) ''classes''))
      \<and> (truthy (get_prop st (JObj a) ''className'') \<longrightarrow>
            (\<exists>s. get_prop st (JObj a) ''className'' = JStr s))
      \<and> (truthy (get_prop st (JObj a) ''classes'') \<longrightarrow>
            (\<exists>s. get_prop st (JObj a) ''classes'' = JStr s))
    \<longrightarrow> (\<exists>st'. merge_classes (JObj a) st = (st', Inr ())
          \<and> get_prop st' (JObj a) ''className'' =
              JStr (merged_className (class_text (get_prop st (JObj a) ''className''))
                                     (class_text (get_prop st (JObj a) ''classes'')))
          \<and> ''classes'' \<notin> fst ` set (fields_of st' a)
          \<and> (\<forall>k. k \<noteq> ''className'' \<and> k \<noteq> ''classes'' \<longrightarrow>
                get_prop st' (JObj a) k = get_prop st (JObj a) k)))
   \<and> createNativeElementFunction example_host ''div'' (JObj 0) JUndefined class_store =
     (\<lparr>objs = [[(''className'', JStr ''a b c'')], []],
       nodes = [\<lparr>localName = ''div'', attributes = [(''class'', ''a b c'')], listeners = [],
                 childNodes = [], parentNode = None\<rparr>],
       console = []\<rparr>, Inr 0)"
proof (intro conjI impI)
  assume h: "a < length (objs st)
      \<and> (truthy (get_prop st (JObj a) ''className'') \<or> truthy (get_prop st (JObj a) ''classes''))
      \<and> (truthy (get_prop st (JObj a) ''className'') \<longrightarrow>
            (\<exists>s. get_prop st (JObj a) ''className'' = JStr s))
      \<and> (truthy (get_prop st (JObj a) ''classes'') \<longrightarrow>
            (\<exists>s. get_prop st (JObj a) ''classes'' = JStr s))"
  define m where "m = merged_className (class_text (get_prop st (JObj a) ''className''))
                                     (class_text (get_prop st (JObj a) ''classes''))"
  define st' where "st' = delete_prop (JObj a) ''classes'' (set_prop (JObj a) ''className'' (JStr m) st)"
  from h have mc: "merge_classes (JObj a) st = (st', Inr ())"
    unfolding st'_def m_def by (intro merge_classes_strings) auto
  from h have f: "fields_of st' a =
      filter (\<lambda>kv. fst kv \<noteq> ''classes'') (assign_field ''className'' (JStr m) (fields_of st a))"
    unfolding st'_def by (simp add: fields_of_def)
  have 1: "get_prop st' (JObj a) ''className'' = JStr m"
    by (simp add: f map_of_filter_key map_of_assign_field)
  have 2: "''classes'' \<notin> fst ` set (fields_of st' a)"
    by (auto simp: f)
  have 3: "\<forall>k. k \<noteq> ''className'' \<and> k \<noteq> ''classes'' \<longrightarrow>
                get_prop st' (JObj a) k = get_prop st (JObj a) k"
    by (simp add: f map_of_filter_key map_of_assign_field)
  from mc 1 2 3 show "\<exists>st'. merge_classes (JObj a) st = (st', Inr ())
          \<and> get_prop st' (JObj a) ''className'' =
              JStr (merged_className (class_text (get_prop st (JObj a) ''className''))
                                     (class_text (get_prop st (JObj a) ''classes'')))
          \<and> ''classes'' \<notin> fst ` set (fields_of st' a)
          \<and> (\<forall>k. k \<noteq> ''className'' \<and> k \<noteq> ''classes'' \<longrightarrow>
                get_prop st' (JObj a) k = get_prop st (JObj a) k)"
    unfolding m_def by blast
next
  show "createNativeElementFunction example_host ''div'' (JObj 0) JUndefined class_store =
     (\<lparr>objs = [[(''className'', JStr ''a b c'')], []],
       nodes = [\<lparr>localName = ''div'', attributes = [(''class'', ''a b c'')], listeners = [],
                 childNodes = [], parentNode = None\<rparr>],
       console = []\<rparr>, Inr 0)"
    by (rule example_class_merge)
qed

theorem class_name_merge_witness:
  "0 < length (objs class_store)
   \<and> truthy (get_prop class_store (JObj 0) ''className'')
   \<and> get_prop class_store (JObj 0) ''className'' = JStr ''a b''
   \<and> get_prop class_store (JObj 0) ''classes'' = JStr ''b c''
   \<and> (\<exists>st'. merge_classes (JObj 0) class_store = (st', Inr ())
          \<and> get_prop st' (JObj 0) ''className'' = JStr ''a b c''
          \<and> ''classes'' \<notin> fst ` set (fields_of st' 0))"
proof -
  have g: "get_prop class_store (JObj 0) ''className'' = JStr ''a b''"
          "get_prop class_store (JObj 0) ''classes'' = JStr ''b c''"
          "0 < length (objs class_store)"
    by (simp_all add: class_store_def fields_of_def)
  have m: "merged_className ''a b'' ''b c'' = ''a b c''"
    by (simp add: merged_className_def)
  from class_name_merge[of 0 class_store] g m show ?thesis
    by (auto simp: class_text_def)
qed

text \<open>
  C3 as stated fails twice. A tab is whitespace, but the code does not split on it:
  \<^verbatim>\<open>className\<close> \<^verbatim>\<open>"a<TAB>b"\<close> stays one token where the specification's merge gives \<^verbatim>\<open>"a b"\<close>.
  And \<^verbatim>\<open>classes\<close> set to the empty string is set but falsy: it is not removed from the
  bag, and the node gets a \<^verbatim>\<open>classes\<close> attribute.
\<close>

theorem class_name_merge_counterexample:
  "get_prop (fst (createNativeElementFunction example_host ''div'' (JObj 0) JUndefined tab_class_store))
      (JObj 0) ''className'' = JStr [CHR ''a'', CHR 0x09, CHR ''b'']
   \<and> spec_merged_className [CHR ''a'', CHR 0x09, CHR ''b''] [] = ''a b''
   \<and> get_prop (fst (createNativeElementFunction example_host ''div'' (JObj 0) JUndefined empty_classes_store))
      (JObj 0) ''classes'' = JStr []
   \<and> getAttribute (fst (createNativeElementFunction example_host ''div'' (JObj 0) JUndefined empty_classes_store))
      0 ''classes'' = Some []"
  by (simp add: library_defs tab_class_store_def empty_classes_store_def example_host_def
        spec_merged_className_def is_whitespace_def getAttribute_def)



lemma fields_of_new_object:
  "fields_of (snd (new_object st)) b = fields_of st b"
  by (auto simp: fields_of_def new_object_def nth_append)

lemma get_prop_new_object:
  "get_prop (snd (new_object st)) p k = get_prop st p k"
  by (cases p) (simp_all add: fields_of_new_object)

lemma fields_of_cong_objs: "objs st' = objs st \<Longrightarrow> fields_of st' b = fields_of st b"
  by (simp add: fields_of_def)

text \<open>
  C9. The factory works on the caller's own object. When the first parameter is a bag
  whose \<^verbatim>\<open>className\<close> or \<^verbatim>\<open>classes\<close> is truthy (each truthy one a string, as the interface
  declares) and the second parameter is absent, a list or a scalar, the merge writes into
  that object, the builder is then called with the same reference, and when the call is
  over, with a node or with an error, the object the caller holds has \<^verbatim>\<open>className\<close> set to
  the merged string and no \<^verbatim>\<open>classes\<close> property.
\<close>

theorem props_bag_mutated_in_place:
  assumes "a < length (objs st)"
    and "shape_of arg2 \<in> {Absent, ListShape, Scalar}"
    and "truthy (get_prop st (JObj a) ''className'') \<or> truthy (get_prop st (JObj a) ''classes'')"
    and "truthy (get_prop st (JObj a) ''className'') \<longrightarrow>
           (\<exists>s. get_prop st (JObj a) ''className'' = JStr s)"
    and "truthy (get_prop st (JObj a) ''classes'') \<longrightarrow>
           (\<exists>s. get_prop st (JObj a) ''classes'' = JStr s)"
  shows "\<exists>st1 children st' r.
           merge_classes (JObj a) (snd (new_object st)) = (st1, Inr ())
         \<and> factory_try h tag (fst (new_object st)) (JArr []) (JObj a) (default_null arg2)
              (snd (new_object st)) = createNativeDOMElement h tag (JObj a) children st1
         \<and> createNativeElementFunction h tag (JObj a) arg2 st = (st', r)
         \<and> fields_of st1 a = fields_of st' a
         \<and> fields_of st' a =
             filter (\<lambda>kv. fst kv \<noteq> ''classes'')
               (assign_field ''className''
                  (JStr (merged_className (class_text (get_prop st (JObj a) ''className''))
                                          (class_text (get_prop st (JObj a) ''classes''))))
                  (fields_of st a))"
proof -
  let ?st0 = "snd (new_object st)"
  let ?m = "merged_className (class_text (get_prop st (JObj a) ''className''))
                             (class_text (get_prop st (JObj a) ''classes''))"
  define st1 where "st1 = delete_prop (JObj a) ''classes'' (set_prop (JObj a) ''className'' (JStr ?m) ?st0)"
  have a0: "a < length (objs ?st0)" using assms(1) by (simp add: new_object_def)
  have mc: "merge_classes (JObj a) ?st0 = (st1, Inr ())"
    unfolding st1_def
    using merge_classes_strings[of a ?st0] a0 assms(3,4,5)
    by (simp only: get_prop_new_object)
  have f1: "fields_of st1 a =
      filter (\<lambda>kv. fst kv \<noteq> ''classes'') (assign_field ''className'' (JStr ?m) (fields_of st a))"
    unfolding st1_def using a0
    by (simp add: fields_of_delete_prop fields_of_set_prop fields_of_new_object del: set_prop.simps delete_prop.simps)
  obtain children where res: "spec_resolve (fst (new_object st)) (JArr []) (JObj a) arg2 = Some (JObj a, children)"
    using assms(2) by (cases arg2) auto
  have dn: "default_null (JObj a) = JObj a" by (simp add: default_null_def)
  from resolve_params_spec[of tag ?st0 "fst (new_object st)" "JArr []" "JObj a" arg2] res
  have ft: "factory_try h tag (fst (new_object st)) (JArr []) (JObj a) (default_null arg2) ?st0
            = createNativeDOMElement h tag (JObj a) children st1"
    by (simp add: factory_try_def mc dn)
  obtain st2 r where b: "createNativeDOMElement h tag (JObj a) children st1 = (st2, r)"
    by (cases "createNativeDOMElement h tag (JObj a) children st1")
  from createNativeDOMElement_frame[OF b] have o2: "objs st2 = objs st1" by simp
  obtain st' where c: "createNativeElementFunction h tag (JObj a) arg2 st = (st', r)" and o': "objs st' = objs st2"
    using ft b by (cases r) (auto simp: createNativeElementFunction_def Let_def case_prod_beta dn console_error_def)
  have "fields_of st' a = fields_of st1 a"
    using o2 o' by (simp add: fields_of_def)
  with mc ft c f1 show ?thesis by auto
qed


theorem props_bag_mutated_in_place_witness:
  "\<exists>st1 children st' r.
      merge_classes (JObj 0) (snd (new_object class_store)) = (st1, Inr ())
    \<and> factory_try example_host ''div'' (fst (new_object class_store)) (JArr []) (JObj 0)
         (default_null (JStr ''hi'')) (snd (new_object class_store))
       = createNativeDOMElement example_host ''div'' (JObj 0) children st1
    \<and> createNativeElementFunction example_host ''div'' (JObj 0) (JStr ''hi'') class_store = (st', r)
    \<and> fields_of st1 0 = fields_of st' 0
    \<and> fields_of st' 0 = [(''className'', JStr ''a b c'')]"
proof -
  have g: "get_prop class_store (JObj 0) ''className'' = JStr ''a b''"
          "get_prop class_store (JObj 0) ''classes'' = JStr ''b c''"
          "0 < length (objs class_store)"
          "fields_of class_store 0 = [(''className'', JStr ''a b''), (''classes'', JStr ''b c'')]"
    by (simp_all add: class_store_def fields_of_def)
  have m: "merged_className ''a b'' ''b c'' = ''a b c''"
    by (simp add: merged_className_def)
  have s: "shape_of (JStr ''hi'') \<in> {Absent, ListShape, Scalar}" by simp
  from props_bag_mutated_in_place[of 0 class_store "JStr ''hi''" example_host "''div''", OF g(3) s]
  show ?thesis
    unfolding g(1,2) by (simp add: class_text_def m g(4))
qed

subsection \<open>The data branch\<close>










subsection \<open>Attaching the children\<close>

lemma inclusive_ancestor_no_parent:
  "parentNode (ns ! p) = None \<Longrightarrow> inclusive_ancestor ns fuel c p = (c = p)"
  by (cases fuel) simp_all

lemma removeAll_Element: "removeAll (Element c) (map Element ys) = map Element (removeAll c ys)"
  by (induction ys) auto

lemma fold_move_to_end:
  "fold (\<lambda>c ys. removeAll c ys @ [c]) xs ys = filter (\<lambda>y. y \<notin> set xs) ys @ remdups xs"
proof (induction xs arbitrary: ys)
  case Nil
  then show ?case by simp
next
  case (Cons x xs)
  have "filter (\<lambda>y. y \<notin> set xs) (removeAll x ys) = filter (\<lambda>y. y \<notin> set (x # xs)) ys"
    by (induction ys) auto
  with Cons show ?case by auto
qed

lemma appendChild_effect:
  assumes "el < length (nodes st)" "c < length (nodes st)" "c \<noteq> el"
    and "parentNode (nodes st ! el) = None"
  shows "\<exists>st'. appendChild el c st = Inr st'
     \<and> length (nodes st') = length (nodes st)
     \<and> (\<forall>q < length (nodes st).
          childNodes (nodes st' ! q) =
            (if parentNode (nodes st ! c) = Some q
             then removeAll (Element c) (childNodes (nodes st ! q))
             else childNodes (nodes st ! q)) @ (if q = el then [Element c] else [])
        \<and> parentNode (nodes st' ! q) = (if q = c then Some el else parentNode (nodes st ! q))
        \<and> attributes (nodes st' ! q) = attributes (nodes st ! q)
        \<and> listeners (nodes st' ! q) = listeners (nodes st ! q)
        \<and> localName (nodes st' ! q) = localName (nodes st ! q))"
proof -
  have na: "\<not> inclusive_ancestor (nodes st) (length (nodes st)) c el"
    using assms by (simp add: inclusive_ancestor_no_parent)
  show ?thesis
  proof (cases "parentNode (nodes st ! c)")
    case None
    with na assms show ?thesis
      by (auto simp: appendChild_def Let_def nth_list_update)
  next
    case (Some p)
    show ?thesis
    proof (cases "p < length (nodes st)")
      case True
      with Some na assms show ?thesis
        by (auto simp: appendChild_def Let_def nth_list_update)
    next
      case False
      with Some na assms show ?thesis
        by (auto simp: appendChild_def Let_def nth_list_update)
    qed
  qed
qed


lemma append_children_effect:
  assumes "children_inv st el ys"
    and "\<forall>c \<in> set (element_refs xs). c < length (nodes st) \<and> c \<noteq> el"
  shows "\<exists>st'. append_children el xs st = (st', Inr ())
     \<and> length (nodes st') = length (nodes st)
     \<and> children_inv st' el (fold (\<lambda>c ys. removeAll c ys @ [c]) (element_refs xs) ys)
     \<and> (\<forall>c \<in> set (element_refs xs). parentNode (nodes st' ! c) = Some el)
     \<and> (\<forall>q < length (nodes st).
           attributes (nodes st' ! q) = attributes (nodes st ! q)
         \<and> listeners (nodes st' ! q) = listeners (nodes st ! q)
         \<and> localName (nodes st' ! q) = localName (nodes st ! q)
         \<and> (q \<noteq> el \<longrightarrow> childNodes (nodes st' ! q) =
               filter (\<lambda>ch. \<not> moved_from st q (element_refs xs) ch) (childNodes (nodes st ! q))))"
  using assms
proof (induction xs arbitrary: st ys)
  case Nil
  then show ?case by (simp add: moved_from_def)
next
  case (Cons x xs)
  show ?case
  proof (cases "\<exists>c. x = JElem c")
    case False
    then have r: "element_refs (x # xs) = element_refs xs"
      and a: "append_children el (x # xs) st = append_children el xs st"
      by (cases x; simp)+
    from Cons.IH[OF Cons.prems(1)] Cons.prems(2) show ?thesis
      unfolding r a by simp
  next
    case True
    then obtain c where x: "x = JElem c" by blast
    from Cons.prems(2) x have c: "c < length (nodes st)" "c \<noteq> el"
      and rest: "\<forall>c \<in> set (element_refs xs). c < length (nodes st) \<and> c \<noteq> el" by simp_all
    from Cons.prems(1) have el: "el < length (nodes st)" "parentNode (nodes st ! el) = None"
      and kids: "childNodes (nodes st ! el) = map Element ys"
      and ysp: "\<forall>c \<in> set ys. c < length (nodes st) \<and> c \<noteq> el \<and> parentNode (nodes st ! c) = Some el"
      by (simp_all add: children_inv_def)
    from appendChild_effect[OF el(1) c el(2)] obtain st1 where
      s1: "appendChild el c st = Inr st1"
      and len1: "length (nodes st1) = length (nodes st)"
      and eff: "\<And>q. q < length (nodes st) \<Longrightarrow>
          childNodes (nodes st1 ! q) =
            (if parentNode (nodes st ! c) = Some q
             then removeAll (Element c) (childNodes (nodes st ! q))
             else childNodes (nodes st ! q)) @ (if q = el then [Element c] else [])
        \<and> parentNode (nodes st1 ! q) = (if q = c then Some el else parentNode (nodes st ! q))
        \<and> attributes (nodes st1 ! q) = attributes (nodes st ! q)
        \<and> listeners (nodes st1 ! q) = listeners (nodes st ! q)
        \<and> localName (nodes st1 ! q) = localName (nodes st ! q)"
      by blast
    have notin: "parentNode (nodes st ! c) \<noteq> Some el \<Longrightarrow> removeAll c ys = ys"
      using ysp by auto
    have kids1: "childNodes (nodes st1 ! el) = map Element (removeAll c ys @ [c])"
      using eff[OF el(1)] kids notin by (auto simp: removeAll_Element)
    have inv1: "children_inv st1 el (removeAll c ys @ [c])"
      unfolding children_inv_def
      using el c len1 kids1 ysp eff by auto
    from rest len1 have rest1: "\<forall>c \<in> set (element_refs xs). c < length (nodes st1) \<and> c \<noteq> el"
      by simp
    from Cons.IH[OF inv1 rest1] obtain st' where
      r: "append_children el xs st1 = (st', Inr ())"
      and len': "length (nodes st') = length (nodes st1)"
      and inv': "children_inv st' el (fold (\<lambda>c ys. removeAll c ys @ [c]) (element_refs xs) (removeAll c ys @ [c]))"
      and par': "\<forall>c \<in> set (element_refs xs). parentNode (nodes st' ! c) = Some el"
      and oth': "\<And>q. q < length (nodes st1) \<Longrightarrow>
           attributes (nodes st' ! q) = attributes (nodes st1 ! q)
         \<and> listeners (nodes st' ! q) = listeners (nodes st1 ! q)
         \<and> localName (nodes st' ! q) = localName (nodes st1 ! q)
         \<and> (q \<noteq> el \<longrightarrow> childNodes (nodes st' ! q) =
               filter (\<lambda>ch. \<not> moved_from st1 q (element_refs xs) ch) (childNodes (nodes st1 ! q)))"
      by blast
    have run: "append_children el (x # xs) st = (st', Inr ())"
      using s1 r x by simp
    have parc: "parentNode (nodes st' ! c) = Some el"
    proof -
      from inv' have "\<forall>d \<in> set (fold (\<lambda>c ys. removeAll c ys @ [c]) (element_refs xs) (removeAll c ys @ [c])).
          parentNode (nodes st' ! d) = Some el"
        by (simp add: children_inv_def)
      moreover have "c \<in> set (fold (\<lambda>c ys. removeAll c ys @ [c]) (element_refs xs) (removeAll c ys @ [c]))"
        by (simp add: fold_move_to_end)
      ultimately show ?thesis by blast
    qed
    have others: "childNodes (nodes st' ! q) =
               filter (\<lambda>ch. \<not> moved_from st q (element_refs (x # xs)) ch) (childNodes (nodes st ! q))"
      if q: "q < length (nodes st)" "q \<noteq> el" for q
    proof -
      have m1: "moved_from st1 q (element_refs xs) ch \<longleftrightarrow>
                (\<exists>d \<in> set (element_refs xs). d \<noteq> c \<and> ch = Element d \<and> parentNode (nodes st ! d) = Some q)" for ch
        using eff rest q by (auto simp: moved_from_def)
      have m0: "moved_from st q (element_refs (x # xs)) ch \<longleftrightarrow>
                (ch = Element c \<and> parentNode (nodes st ! c) = Some q)
                \<or> (\<exists>d \<in> set (element_refs xs). ch = Element d \<and> parentNode (nodes st ! d) = Some q)" for ch
        by (auto simp: moved_from_def x)
      have k1: "childNodes (nodes st1 ! q) =
            (if parentNode (nodes st ! c) = Some q
             then removeAll (Element c) (childNodes (nodes st ! q))
             else childNodes (nodes st ! q))"
        using eff[OF q(1)] q(2) by simp
      from oth'[of q] q len1 have "childNodes (nodes st' ! q) =
               filter (\<lambda>ch. \<not> moved_from st1 q (element_refs xs) ch) (childNodes (nodes st1 ! q))"
        by simp
      also have "\<dots> = filter (\<lambda>ch. \<not> moved_from st q (element_refs (x # xs)) ch) (childNodes (nodes st ! q))"
        unfolding k1 m1 m0 removeAll_filter_not_eq
        by (auto intro!: filter_cong)
      finally show ?thesis .
    qed
    have "\<forall>q < length (nodes st).
           attributes (nodes st' ! q) = attributes (nodes st ! q)
         \<and> listeners (nodes st' ! q) = listeners (nodes st ! q)
         \<and> localName (nodes st' ! q) = localName (nodes st ! q)
         \<and> (q \<noteq> el \<longrightarrow> childNodes (nodes st' ! q) =
               filter (\<lambda>ch. \<not> moved_from st q (element_refs (x # xs)) ch) (childNodes (nodes st ! q)))"
      using oth' eff others len1 by simp
    moreover have "\<forall>d \<in> set (element_refs (x # xs)). parentNode (nodes st' ! d) = Some el"
      using par' parc x by simp
    moreover have "children_inv st' el (fold (\<lambda>c ys. removeAll c ys @ [c]) (element_refs (x # xs)) ys)"
      using inv' x by simp
    ultimately show ?thesis using run len' len1 by simp
  qed
qed


lemma attrs_only_refl: "el < length (nodes st) \<Longrightarrow> attrs_only el st st"
  unfolding attrs_only_def
  by (intro exI[of _ "attributes (nodes st ! el)"] exI[of _ "listeners (nodes st ! el)"]) simp

lemma attrs_only_trans:
  "el < length (nodes st) \<Longrightarrow> attrs_only el st st1 \<Longrightarrow> attrs_only el st1 st2 \<Longrightarrow> attrs_only el st st2"
  unfolding attrs_only_def by (elim exE, simp) blast

lemma attrs_only_update:
  "el < length (nodes st) \<Longrightarrow> attrs_only el st (update_node el (\<lambda>n. n\<lparr>attributes := f n\<rparr>) st)"
  "el < length (nodes st) \<Longrightarrow> attrs_only el st (update_node el (\<lambda>n. n\<lparr>listeners := g n\<rparr>) st)"
  unfolding attrs_only_def
  by (rule exI[of _ "f (nodes st ! el)"], rule exI[of _ "listeners (nodes st ! el)"], simp,
      rule exI[of _ "attributes (nodes st ! el)"], rule exI[of _ "g (nodes st ! el)"], simp)

lemma setAttribute_attrs_only:
  "el < length (nodes st) \<Longrightarrow> setAttribute h el k v st = Inr st' \<Longrightarrow> attrs_only el st st'"
  by (auto simp: setAttribute_def attrs_only_update split: if_splits)

lemma set_data_attributes_attrs_only:
  "el < length (nodes st) \<Longrightarrow> set_data_attributes h el fs st = (st', r) \<Longrightarrow> attrs_only el st st'"
proof (induction fs arbitrary: st)
  case Nil
  then show ?case by (simp add: attrs_only_refl)
next
  case (Cons kv fs)
  obtain k v where kv: "kv = (k, v)" by (cases kv)
  show ?case
  proof (cases "setAttribute h el (''data-'' @ k) (JStr (to_string v)) st")
    case (Inl e)
    with Cons.prems kv show ?thesis by (simp add: attrs_only_refl)
  next
    case (Inr st1)
    with Cons.prems kv have r: "set_data_attributes h el fs st1 = (st', r)" by simp
    from setAttribute_frame[OF Inr] Cons.prems(1) have l: "el < length (nodes st1)" by simp
    from attrs_only_trans[OF Cons.prems(1) setAttribute_attrs_only[OF Cons.prems(1) Inr] Cons.IH[OF l r]]
    show ?thesis .
  qed
qed

lemma apply_prop_attrs_only:
  "el < length (nodes st) \<Longrightarrow> apply_prop h el kv st = (st', r) \<Longrightarrow> attrs_only el st st'"
  by (auto simp: apply_prop_def Let_def addEventListener_def set_className_def
         attrs_only_refl attrs_only_update
         split: if_splits sum.splits
         dest: setAttribute_attrs_only set_data_attributes_attrs_only)

lemma apply_props_attrs_only:
  "el < length (nodes st) \<Longrightarrow> apply_props h el es st = (st', r) \<Longrightarrow> attrs_only el st st'"
proof (induction es arbitrary: st)
  case Nil
  then show ?case by (simp add: attrs_only_refl)
next
  case (Cons kv es)
  obtain st1 r1 where s1: "apply_prop h el kv st = (st1, r1)" by (cases "apply_prop h el kv st")
  note a1 = apply_prop_attrs_only[OF Cons.prems(1) s1]
  show ?case
  proof (cases r1)
    case (Inl e)
    with Cons.prems s1 a1 show ?thesis by simp
  next
    case (Inr u)
    with Cons.prems s1 have r: "apply_props h el es st1 = (st', r)" by simp
    from apply_prop_frame[OF s1] Cons.prems(1) have l: "el < length (nodes st1)" by simp
    from attrs_only_trans[OF Cons.prems(1) a1 Cons.IH[OF l r]] show ?thesis .
  qed
qed

lemma attrs_only_children_inv:
  "attrs_only el st st' \<Longrightarrow> children_inv st el ys \<Longrightarrow> children_inv st' el ys"
  unfolding attrs_only_def children_inv_def
  by (auto simp: nth_list_update)

lemma createElement_effect:
  assumes "createElement h tag st = Inr (el, st1)"
  shows "el = length (nodes st)"
    and "nodes st1 = nodes st @ [\<lparr>localName = ascii_lower tag, attributes = [], listeners = [],
                 childNodes = [], parentNode = None\<rparr>]"
    and "children_inv st1 el []"
  using assms by (auto simp: createElement_def children_inv_def split: if_splits)


lemma apply_children_effect:
  assumes inv: "children_inv st el []"
    and kn: "\<forall>xs. ch = JArr xs \<longrightarrow> (\<forall>c \<in> set (element_refs xs). c < length (nodes st) \<and> c \<noteq> el)"
  shows "\<exists>st'. apply_children el ch st = (st', Inr ())
     \<and> length (nodes st') = length (nodes st)
     \<and> childNodes (nodes st' ! el) = expected_children ch
     \<and> parentNode (nodes st' ! el) = None
     \<and> (\<forall>xs. ch = JArr xs \<longrightarrow> (\<forall>c \<in> set (element_refs xs). parentNode (nodes st' ! c) = Some el))
     \<and> (\<forall>q < length (nodes st).
           attributes (nodes st' ! q) = attributes (nodes st ! q)
         \<and> listeners (nodes st' ! q) = listeners (nodes st ! q)
         \<and> localName (nodes st' ! q) = localName (nodes st ! q)
         \<and> (q \<noteq> el \<longrightarrow> childNodes (nodes st' ! q) =
               (case ch of
                  JArr xs \<Rightarrow> filter (\<lambda>c. \<not> moved_from st q (element_refs xs) c) (childNodes (nodes st ! q))
                | _ \<Rightarrow> childNodes (nodes st ! q))))"
proof (cases "\<exists>xs. ch = JArr xs")
  case True
  then obtain xs where ch: "ch = JArr xs" by blast
  with kn have "\<forall>c \<in> set (element_refs xs). c < length (nodes st) \<and> c \<noteq> el" by simp
  from append_children_effect[OF inv this] obtain st' where
    r: "append_children el xs st = (st', Inr ())"
    and len: "length (nodes st') = length (nodes st)"
    and inv': "children_inv st' el (fold (\<lambda>c ys. removeAll c ys @ [c]) (element_refs xs) [])"
    and par: "\<forall>c \<in> set (element_refs xs). parentNode (nodes st' ! c) = Some el"
    and oth: "\<forall>q < length (nodes st).
           attributes (nodes st' ! q) = attributes (nodes st ! q)
         \<and> listeners (nodes st' ! q) = listeners (nodes st ! q)
         \<and> localName (nodes st' ! q) = localName (nodes st ! q)
         \<and> (q \<noteq> el \<longrightarrow> childNodes (nodes st' ! q) =
               filter (\<lambda>ch. \<not> moved_from st q (element_refs xs) ch) (childNodes (nodes st ! q)))"
    by blast
  from inv' have "childNodes (nodes st' ! el) = map Element (remdups (element_refs xs))"
    and "parentNode (nodes st' ! el) = None"
    by (simp_all add: children_inv_def fold_move_to_end)
  with r len par oth show ?thesis
    by (simp add: ch apply_children_def expected_children_def)
next
  case False
  from inv have el: "el < length (nodes st)" "childNodes (nodes st ! el) = []"
    "parentNode (nodes st ! el) = None"
    by (simp_all add: children_inv_def)
  show ?thesis
  proof (cases "typeof ch = ''string'' \<or> typeof ch = ''number''")
    case True
    with False el show ?thesis
      by (cases ch) (auto simp: apply_children_def expected_children_def set_textContent_def
            Let_def nth_list_update)
  next
    case nt: False
    with False el show ?thesis
      by (cases ch) (auto simp: apply_children_def expected_children_def)
  qed
qed


lemma builder_phases:
  assumes "createNativeDOMElement h tag props children st = (st', Inr el)"
  shows "\<exists>st1 entries st2.
           createElement h tag st = Inr (el, st1)
         \<and> Object_entries st1 props = Inr entries
         \<and> apply_props h el entries st1 = (st2, Inr ())
         \<and> apply_children el (if children = JUndefined then JArr [] else children) st2 = (st', Inr ())"
  using assms
  by (auto simp: createNativeDOMElement_def Let_def split: sum.splits prod.splits)

lemma known_children_fresh:
  assumes "known_children st children" and "el = length (nodes st)" and "length (nodes st2) = Suc el"
  shows "\<forall>xs. (if children = JUndefined then JArr [] else children) = JArr xs \<longrightarrow>
           (\<forall>c \<in> set (element_refs xs). c < length (nodes st2) \<and> c \<noteq> el)"
  using assms by (auto simp: known_children_def list_all_iff split: jsval.splits)

lemma expected_children_default:
  "expected_children (if children = JUndefined then JArr [] else children) = expected_children children"
  by (simp add: expected_children_def)

lemma builder_children:
  assumes c: "createElement h tag st = Inr (el, st1)"
    and p: "apply_props h el entries st1 = (st2, r)"
    and k: "known_children st children"
  shows "\<exists>st'. apply_children el (if children = JUndefined then JArr [] else children) st2 = (st', Inr ())
     \<and> length (nodes st') = length (nodes st2)
     \<and> childNodes (nodes st2 ! el) = []
     \<and> childNodes (nodes st' ! el) = expected_children children
     \<and> parentNode (nodes st' ! el) = None
     \<and> attributes (nodes st' ! el) = attributes (nodes st2 ! el)
     \<and> listeners (nodes st' ! el) = listeners (nodes st2 ! el)
     \<and> localName (nodes st' ! el) = ascii_lower tag"
proof -
  note ce = createElement_effect[OF c]
  from ce(2) have l1: "el < length (nodes st1)" "length (nodes st1) = Suc el"
    using ce(1) by simp_all
  from apply_props_frame[OF p] l1 have l2: "el < length (nodes st2)" "length (nodes st2) = Suc el"
    by simp_all
  from apply_props_attrs_only[OF l1(1) p] have ao: "attrs_only el st1 st2" .
  from attrs_only_children_inv[OF ao ce(3)] have inv2: "children_inv st2 el []" .
  from ao l1(1) ce(2) ce(1) have ln: "localName (nodes st2 ! el) = ascii_lower tag"
    by (auto simp: attrs_only_def)
  from apply_children_effect[OF inv2 known_children_fresh[OF k ce(1) l2(2)]] l2(1) ln inv2
  show ?thesis
    by (auto simp: expected_children_default children_inv_def)
qed






subsection \<open>Calling a factory twice\<close>

lemma Object_entries_same_fields:
  "\<forall>b. fields_of S b = fields_of S' b \<Longrightarrow> Object_entries S v = Object_entries S' v"
  by (cases v) simp_all

lemma get_prop_same_fields:
  "\<forall>b. fields_of S b = fields_of S' b \<Longrightarrow> get_prop S p k = get_prop S' p k"
  by (cases p) simp_all

lemma setAttribute_sim:
  assumes "same_view S el S' el'" and "setAttribute h el k v S = r"
  shows "case r of
           Inl e \<Rightarrow> setAttribute h el' k v S' = Inl e
         | Inr T \<Rightarrow> (\<exists>T'. setAttribute h el' k v S' = Inr T' \<and> same_view T el T' el')"
  using assms
  by (auto simp: setAttribute_def same_view_def fields_of_def split: if_splits)

lemma set_data_attributes_sim:
  assumes "same_view S el S' el'" and "set_data_attributes h el fs S = (T, r)"
  shows "\<exists>T'. set_data_attributes h el' fs S' = (T', r) \<and> same_view T el T' el'"
  using assms
proof (induction fs arbitrary: S S')
  case Nil
  then show ?case by simp
next
  case (Cons kv fs)
  obtain k v where kv: "kv = (k, v)" by (cases kv)
  show ?case
  proof (cases "setAttribute h el (''data-'' @ k) (JStr (to_string v)) S")
    case (Inl e)
    with setAttribute_sim[OF Cons.prems(1) Inl] Cons.prems kv show ?thesis by simp
  next
    case (Inr S1)
    from setAttribute_sim[OF Cons.prems(1) Inr] obtain S1' where
      s': "setAttribute h el' (''data-'' @ k) (JStr (to_string v)) S' = Inr S1'"
      and v1: "same_view S1 el S1' el'" by auto
    from Cons.prems(2) kv Inr have "set_data_attributes h el fs S1 = (T, r)" by simp
    from Cons.IH[OF v1 this] s' kv show ?thesis by simp
  qed
qed

lemma fields_of_update_node [simp]: "fields_of (update_node el f S) b = fields_of S b"
  by (simp add: fields_of_def)

lemma same_view_update:
  assumes "same_view S el S' el'"
  shows "same_view (update_node el f S) el (update_node el' f S') el'"
  using assms by (simp add: same_view_def)

lemma apply_prop_sim:
  assumes v: "same_view S el S' el'" and a: "apply_prop h el kv S = (T, r)"
  shows "\<exists>T'. apply_prop h el' kv S' = (T', r) \<and> same_view T el T' el'"
proof -
  obtain key val where kv: "kv = (key, val)" by (cases kv)
  from v have oe: "Object_entries S val = Object_entries S' val"
    by (intro Object_entries_same_fields) (simp add: same_view_def)
  consider (ev) "take 2 key = ''on'' \<and> typeof val = ''function''"
    | (cn) "\<not> (take 2 key = ''on'' \<and> typeof val = ''function'')" "key = ''className''"
    | (da) "\<not> (take 2 key = ''on'' \<and> typeof val = ''function'')" "key \<noteq> ''className''"
           "key = ''data'' \<and> typeof val = ''object''"
    | (ge) "\<not> (take 2 key = ''on'' \<and> typeof val = ''function'')" "key \<noteq> ''className''"
           "\<not> (key = ''data'' \<and> typeof val = ''object'')"
    by blast
  then show ?thesis
  proof cases
    case ev
    with a kv same_view_update[OF v] show ?thesis
      by (auto simp: apply_prop_def addEventListener_def Let_def)
  next
    case cn
    with a kv same_view_update[OF v] show ?thesis
      by (auto simp: apply_prop_def set_className_def)
  next
    case da
    show ?thesis
    proof (cases "Object_entries S val")
      case (Inl e)
      then have "Object_entries S' val = Inl e" using oe by simp
      with Inl da a kv v show ?thesis by (auto simp: apply_prop_def)
    next
      case (Inr es)
      then have oe': "Object_entries S' val = Inr es" using oe by simp
      from Inr da a kv have "set_data_attributes h el es S = (T, r)" by (auto simp: apply_prop_def)
      from set_data_attributes_sim[OF v this] oe' da kv show ?thesis
        by (auto simp: apply_prop_def)
    qed
  next
    case ge
    show ?thesis
    proof (cases "setAttribute h el key val S")
      case (Inl e)
      with setAttribute_sim[OF v Inl] ge a kv v show ?thesis by (auto simp: apply_prop_def)
    next
      case (Inr S1)
      with setAttribute_sim[OF v Inr] ge a kv show ?thesis by (auto simp: apply_prop_def)
    qed
  qed
qed

lemma apply_props_sim:
  assumes "same_view S el S' el'" and "apply_props h el es S = (T, r)"
  shows "\<exists>T'. apply_props h el' es S' = (T', r) \<and> same_view T el T' el'"
  using assms
proof (induction es arbitrary: S S')
  case Nil
  then show ?case by simp
next
  case (Cons kv es)
  obtain S1 r1 where s1: "apply_prop h el kv S = (S1, r1)" by (cases "apply_prop h el kv S")
  from apply_prop_sim[OF Cons.prems(1) s1] obtain S1' where
    s1': "apply_prop h el' kv S' = (S1', r1)" and v1: "same_view S1 el S1' el'" by blast
  show ?case
  proof (cases r1)
    case (Inl e)
    with Cons.prems(2) s1 s1' v1 show ?thesis by auto
  next
    case (Inr u)
    with Cons.prems(2) s1 have "apply_props h el es S1 = (T, r)" by simp
    from Cons.IH[OF v1 this] s1' Inr show ?thesis by simp
  qed
qed


lemma split_space_nonempty [simp]: "split_space s \<noteq> []"
  by (induction s) auto

lemma split_space_no_space: "t \<in> set (split_space s) \<Longrightarrow> CHR '' '' \<notin> set t"
proof (induction s arbitrary: t)
  case Nil
  then show ?case by simp
next
  case (Cons c cs)
  show ?case
  proof (cases "c = CHR '' ''")
    case True
    with Cons show ?thesis by auto
  next
    case False
    from Cons.prems False have "t = c # hd (split_space cs) \<or> t \<in> set (tl (split_space cs))"
      by simp
    moreover have "hd (split_space cs) \<in> set (split_space cs)" by simp
    moreover have "set (tl (split_space cs)) \<subseteq> set (split_space cs)"
      by (cases "split_space cs") auto
    ultimately show ?thesis using Cons.IH False by auto
  qed
qed

lemma split_space_single: "CHR '' '' \<notin> set x \<Longrightarrow> split_space x = [x]"
  by (induction x) auto

lemma split_space_append: "CHR '' '' \<notin> set x \<Longrightarrow> split_space (x @ CHR '' '' # r) = x # split_space r"
  by (induction x) auto

lemma split_space_join:
  "\<forall>t \<in> set ts. t \<noteq> [] \<and> CHR '' '' \<notin> set t \<Longrightarrow>
     filter (\<lambda>t. t \<noteq> []) (split_space (join '' '' ts)) = ts"
proof (induction "'' ''" ts rule: join.induct)
  case 1
  then show ?case by simp
next
  case (2 x)
  then show ?case by (simp add: split_space_single)
next
  case (3 x y ys)
  then have "split_space (x @ CHR '' '' # join '' '' (y # ys)) = x # split_space (join '' '' (y # ys))"
    by (intro split_space_append) simp
  with 3 show ?case by simp
qed

lemma merged_className_idem:
  "merged_className (merged_className cn cl) [] = merged_className cn cl"
proof -
  let ?ts = "first_occurrences
       (filter (\<lambda>t. t \<noteq> []) (split_space cn) @ filter (\<lambda>t. t \<noteq> []) (split_space cl))"
  have "\<forall>t \<in> set ?ts. t \<noteq> [] \<and> CHR '' '' \<notin> set t"
    by (auto dest: split_space_no_space)
  then have "filter (\<lambda>t. t \<noteq> []) (split_space (join '' '' ?ts)) = ?ts"
    by (rule split_space_join)
  then show ?thesis
    by (simp add: merged_className_def first_occurrences_distinct)
qed

lemma assign_field_idem: "map_of xs k = Some v \<Longrightarrow> assign_field k v xs = xs"
  by (induction xs) (auto split: if_splits)

lemma merge_classes_succeeds_strings:
  assumes "merge_classes p S0 = (S, Inr ())"
  shows "(truthy (get_prop S0 p ''className'') \<longrightarrow> (\<exists>s. get_prop S0 p ''className'' = JStr s))
       \<and> (truthy (get_prop S0 p ''classes'') \<longrightarrow> (\<exists>s. get_prop S0 p ''classes'' = JStr s))"
proof -
  have 1: "js_split v = Inr ts \<Longrightarrow> \<exists>s. v = JStr s" for v ts
    by (cases v) simp_all
  from assms show ?thesis
    by (auto simp: merge_classes_def Let_def split: if_splits sum.splits dest: 1)
qed

lemma truthy_prop_allocated:
  "truthy (get_prop S (JObj a) k) \<Longrightarrow> a < length (objs S)"
  by (auto simp: fields_of_def split: if_splits)

lemma merge_classes_again:
  assumes m1: "merge_classes p S0 = (S, Inr ())"
    and eq: "\<forall>b. fields_of T b = fields_of S b"
  shows "\<exists>T'. merge_classes p T = (T', Inr ()) \<and> (\<forall>b. fields_of T' b = fields_of S b)
            \<and> nodes T' = nodes T \<and> console T' = console T"
proof (cases "truthy (get_prop S0 p ''className'') \<or> truthy (get_prop S0 p ''classes'')")
  case False
  with m1 have "S = S0" by (simp add: merge_classes_falsy)
  with False eq have "\<not> truthy (get_prop T p ''className'')" "\<not> truthy (get_prop T p ''classes'')"
    using get_prop_same_fields[of T S p] by simp_all
  then have "merge_classes p T = (T, Inr ())" by (rule merge_classes_falsy)
  with eq show ?thesis by simp
next
  case True
  then obtain a where p: "p = JObj a" by (cases p) auto
  define m where "m = merged_className (class_text (get_prop S0 (JObj a) ''className''))
                             (class_text (get_prop S0 (JObj a) ''classes''))"
  from True p truthy_prop_allocated have a0: "a < length (objs S0)" by blast
  from merge_classes_succeeds_strings[OF m1] p have str:
    "truthy (get_prop S0 (JObj a) ''className'') \<longrightarrow> (\<exists>s. get_prop S0 (JObj a) ''className'' = JStr s)"
    "truthy (get_prop S0 (JObj a) ''classes'') \<longrightarrow> (\<exists>s. get_prop S0 (JObj a) ''classes'' = JStr s)"
    by blast+
  from True p have tr: "truthy (get_prop S0 (JObj a) ''className'') \<or> truthy (get_prop S0 (JObj a) ''classes'')"
    by blast
  from merge_classes_strings[OF a0 tr str] m1 p
  have S: "S = delete_prop (JObj a) ''classes'' (set_prop (JObj a) ''className'' (JStr m) S0)"
    unfolding m_def by simp
  define F where "F = filter (\<lambda>kv. fst kv \<noteq> ''classes'') (assign_field ''className'' (JStr m) (fields_of S0 a))"
  have FS: "fields_of S a = F"
    unfolding S F_def using a0 by (simp add: fields_of_def)
  with eq have FT: "fields_of T a = F" by simp
  have mo: "map_of F ''className'' = Some (JStr m)" "map_of F ''classes'' = None"
    unfolding F_def by (simp_all add: map_of_filter_key map_of_assign_field)
  have gT: "get_prop T (JObj a) ''className'' = JStr m" "get_prop T (JObj a) ''classes'' = JUndefined"
    by (simp_all add: FT mo)
  have idem: "merged_className m [] = m"
    unfolding m_def by (rule merged_className_idem)
  show ?thesis
  proof (cases "m = []")
    case True
    with gT have "merge_classes (JObj a) T = (T, Inr ())"
      by (intro merge_classes_falsy) simp_all
    with eq p show ?thesis by simp
  next
    case False
    have aT: "a < length (objs T)"
    proof (rule ccontr)
      assume "\<not> a < length (objs T)"
      then have "fields_of T a = []" by (simp add: fields_of_def)
      with FT mo(1) show False by simp
    qed
    from False have trT: "truthy (get_prop T (JObj a) ''className'') \<or> truthy (get_prop T (JObj a) ''classes'')"
      and strT: "truthy (get_prop T (JObj a) ''className'') \<longrightarrow> (\<exists>s. get_prop T (JObj a) ''className'' = JStr s)"
         "truthy (get_prop T (JObj a) ''classes'') \<longrightarrow> (\<exists>s. get_prop T (JObj a) ''classes'' = JStr s)"
      unfolding gT by simp_all
    define T' where "T' = delete_prop (JObj a) ''classes'' (set_prop (JObj a) ''className'' (JStr m) T)"
    from merge_classes_strings[OF aT trT strT]
    have mT: "merge_classes (JObj a) T = (T', Inr ())"
      unfolding T'_def gT by (simp add: class_text_def idem)
    have "fields_of T' b = fields_of T b" for b
    proof (cases "b = a")
      case True
      have "fields_of T' a = filter (\<lambda>kv. fst kv \<noteq> ''classes'') (assign_field ''className'' (JStr m) (fields_of T a))"
        unfolding T'_def using aT by (simp add: fields_of_def)
      also have "\<dots> = filter (\<lambda>kv. fst kv \<noteq> ''classes'') F"
        unfolding FT by (simp only: assign_field_idem[OF mo(1)])
      also have "\<dots> = F"
        unfolding F_def by simp
      finally show ?thesis using True FT by simp
    next
      case False
      then show ?thesis unfolding T'_def by (simp add: fields_of_def)
    qed
    with eq have "\<forall>b. fields_of T' b = fields_of S b" by simp
    with mT merge_classes_frame[OF mT] p show ?thesis by simp
  qed
qed


lemma attrs_only_other:
  "attrs_only el st st' \<Longrightarrow> q \<noteq> el \<Longrightarrow> nodes st' ! q = nodes st ! q"
  by (auto simp: attrs_only_def)

lemma moved_from_cong:
  "(\<forall>c \<in> set cs. parentNode (nodes S ! c) = parentNode (nodes S' ! c)) \<Longrightarrow>
     moved_from S q cs ch = moved_from S' q cs ch"
  by (auto simp: moved_from_def)

lemma builder_compose:
  assumes "createElement h tag st = Inr (el, st1)" "Object_entries st1 props = Inr entries"
    "apply_props h el entries st1 = (st2, Inr ())"
    "apply_children el (if children = JUndefined then JArr [] else children) st2 = (st', Inr ())"
  shows "createNativeDOMElement h tag props children st = (st', Inr el)"
  using assms by (simp add: createNativeDOMElement_def)

lemma builder_other_nodes:
  assumes c: "createElement h tag st = Inr (el, st1)"
    and p: "apply_props h el entries st1 = (st2, Inr ())"
    and ch: "apply_children el (if children = JUndefined then JArr [] else children) st2 = (st', Inr ())"
    and k: "known_children st children"
  shows "(\<forall>xs. children = JArr xs \<longrightarrow> (\<forall>c \<in> set (element_refs xs). parentNode (nodes st' ! c) = Some el))
     \<and> (\<forall>q < length (nodes st).
           attributes (nodes st' ! q) = attributes (nodes st ! q)
         \<and> listeners (nodes st' ! q) = listeners (nodes st ! q)
         \<and> localName (nodes st' ! q) = localName (nodes st ! q)
         \<and> childNodes (nodes st' ! q) =
               (case children of
                  JArr xs \<Rightarrow> filter (\<lambda>c. \<not> moved_from st q (element_refs xs) c) (childNodes (nodes st ! q))
                | _ \<Rightarrow> childNodes (nodes st ! q)))"
proof -
  note ce = createElement_effect[OF c]
  from ce(2) have l1: "el < length (nodes st1)" "length (nodes st1) = Suc el"
    using ce(1) by simp_all
  from apply_props_frame[OF p] l1 have l2: "el < length (nodes st2)" "length (nodes st2) = Suc el"
    by simp_all
  from apply_props_attrs_only[OF l1(1) p] have ao: "attrs_only el st1 st2" .
  from attrs_only_children_inv[OF ao ce(3)] have inv2: "children_inv st2 el []" .
  have old: "nodes st2 ! q = nodes st ! q" if "q < length (nodes st)" for q
    using that attrs_only_other[OF ao, of q] ce(1,2) by (simp add: nth_append)
  note kf = known_children_fresh[OF k ce(1) l2(2)]
  from apply_children_effect[OF inv2 kf] ch have
    par: "\<forall>xs. (if children = JUndefined then JArr [] else children) = JArr xs \<longrightarrow>
            (\<forall>c \<in> set (element_refs xs). parentNode (nodes st' ! c) = Some el)"
    and oth: "\<forall>q < length (nodes st2).
           attributes (nodes st' ! q) = attributes (nodes st2 ! q)
         \<and> listeners (nodes st' ! q) = listeners (nodes st2 ! q)
         \<and> localName (nodes st' ! q) = localName (nodes st2 ! q)
         \<and> (q \<noteq> el \<longrightarrow> childNodes (nodes st' ! q) =
               (case (if children = JUndefined then JArr [] else children) of
                  JArr xs \<Rightarrow> filter (\<lambda>c. \<not> moved_from st2 q (element_refs xs) c) (childNodes (nodes st2 ! q))
                | _ \<Rightarrow> childNodes (nodes st2 ! q)))"
    by auto
  have mv: "moved_from st2 q (element_refs xs) = moved_from st q (element_refs xs)"
    if "children = JArr xs" for xs q
  proof -
    from k that have "\<forall>c \<in> set (element_refs xs). c < length (nodes st)"
      by (simp add: known_children_def list_all_iff)
    then have "\<forall>c \<in> set (element_refs xs). parentNode (nodes st2 ! c) = parentNode (nodes st ! c)"
      using old by simp
    then show ?thesis by (intro ext moved_from_cong)
  qed
  have 1: "\<forall>xs. children = JArr xs \<longrightarrow> (\<forall>c \<in> set (element_refs xs). parentNode (nodes st' ! c) = Some el)"
    using par by auto
  have 2: "attributes (nodes st' ! q) = attributes (nodes st ! q)
         \<and> listeners (nodes st' ! q) = listeners (nodes st ! q)
         \<and> localName (nodes st' ! q) = localName (nodes st ! q)
         \<and> childNodes (nodes st' ! q) =
               (case children of
                  JArr xs \<Rightarrow> filter (\<lambda>c. \<not> moved_from st q (element_refs xs) c) (childNodes (nodes st ! q))
                | _ \<Rightarrow> childNodes (nodes st ! q))"
    if q: "q < length (nodes st)" for q
  proof -
    from q ce(1) l2 have q2: "q < length (nodes st2)" "q \<noteq> el" by simp_all
    from oth q2 old[OF q] have a: "attributes (nodes st' ! q) = attributes (nodes st ! q)"
      "listeners (nodes st' ! q) = listeners (nodes st ! q)"
      "localName (nodes st' ! q) = localName (nodes st ! q)"
      by simp_all
    from oth q2 have "childNodes (nodes st' ! q) =
               (case (if children = JUndefined then JArr [] else children) of
                  JArr xs \<Rightarrow> filter (\<lambda>c. \<not> moved_from st2 q (element_refs xs) c) (childNodes (nodes st2 ! q))
                | _ \<Rightarrow> childNodes (nodes st2 ! q))"
      by simp
    then have b: "childNodes (nodes st' ! q) =
               (case (if children = JUndefined then JArr [] else children) of
                  JArr xs \<Rightarrow> filter (\<lambda>c. \<not> moved_from st2 q (element_refs xs) c) (childNodes (nodes st ! q))
                | _ \<Rightarrow> childNodes (nodes st ! q))"
      by (simp only: old[OF q])
    have "childNodes (nodes st' ! q) =
               (case children of
                  JArr xs \<Rightarrow> filter (\<lambda>c. \<not> moved_from st q (element_refs xs) c) (childNodes (nodes st ! q))
                | _ \<Rightarrow> childNodes (nodes st ! q))"
    proof (cases "\<exists>xs. children = JArr xs")
      case True
      then obtain xs where x: "children = JArr xs" by blast
      with b mv[OF x] show ?thesis by simp
    next
      case False
      with b show ?thesis by (cases children) (simp_all add: moved_from_def)
    qed
    with a show ?thesis by simp
  qed
  from 1 2 show ?thesis by blast
qed


lemma factory_success:
  assumes a: "createNativeElementFunction h tag arg1 arg2 st = (st1, Inr el)"
  shows "\<exists>props children sm.
           spec_resolve (fst (new_object st)) (JArr []) arg1 arg2 = Some (props, children)
         \<and> merge_classes props (snd (new_object st)) = (sm, Inr ())
         \<and> createNativeDOMElement h tag props children sm = (st1, Inr el)"
proof (cases "spec_resolve (fst (new_object st)) (JArr []) arg1 arg2")
  case None
  with a show ?thesis
    by (simp add: createNativeElementFunction_def factory_try_def resolve_params_spec Let_def
          case_prod_beta del: spec_resolve.simps)
next
  case (Some pc)
  obtain props children where pc: "pc = (props, children)" by (cases pc)
  obtain sm rm where m: "merge_classes props (snd (new_object st)) = (sm, rm)"
    by (cases "merge_classes props (snd (new_object st))")
  show ?thesis
  proof (cases rm)
    case (Inl e)
    with a Some pc m show ?thesis
      by (simp add: createNativeElementFunction_def factory_try_def resolve_params_spec Let_def
            case_prod_beta del: spec_resolve.simps)
  next
    case (Inr u)
    obtain sb rb where b: "createNativeDOMElement h tag props children sm = (sb, rb)"
      by (cases "createNativeDOMElement h tag props children sm")
    with a Some pc m Inr have "sb = st1 \<and> rb = Inr el"
      by (cases rb)
         (simp_all add: createNativeElementFunction_def factory_try_def resolve_params_spec Let_def
            case_prod_beta del: spec_resolve.simps)
    with Some pc m Inr b show ?thesis by simp
  qed
qed

lemma factory_compose:
  assumes "spec_resolve (fst (new_object st)) (JArr []) arg1 arg2 = Some (props, children)"
    and "merge_classes props (snd (new_object st)) = (sm, Inr ())"
    and "createNativeDOMElement h tag props children sm = (st1, Inr el)"
  shows "createNativeElementFunction h tag arg1 arg2 st = (st1, Inr el)"
  using assms
  by (simp add: createNativeElementFunction_def factory_try_def resolve_params_spec Let_def
        case_prod_beta del: spec_resolve.simps)

lemma spec_resolve_children:
  "spec_resolve e (JArr []) a1 a2 = Some (p, c) \<Longrightarrow> c = a1 \<or> c = a2 \<or> c = JArr []"
  by (cases a1; cases a2) auto

lemma spec_resolve_props:
  assumes "spec_resolve e c0 a1 a2 = Some (p, c)"
  shows "spec_resolve e' c0 a1 a2 = Some (if shape_of a1 = PlainObject then p else e', c)"
    and "shape_of a1 = PlainObject \<Longrightarrow> p = a1"
    and "shape_of a1 \<noteq> PlainObject \<Longrightarrow> p = e"
  using assms by (cases a1; cases a2; auto)+

lemma known_children_mono:
  "known_children S c \<Longrightarrow> length (nodes S) \<le> length (nodes S') \<Longrightarrow> known_children S' c"
  by (auto simp: known_children_def list_all_iff split: jsval.splits)

lemma known_children_empty [simp]: "known_children S (JArr [])"
  by (simp add: known_children_def)

lemma merge_fresh_object:
  "merge_classes (fst (new_object S)) (snd (new_object S)) = (snd (new_object S), Inr ())"
  by (intro merge_classes_falsy) (simp_all add: new_object_def fields_of_def)

lemma second_resolution:
  assumes res: "spec_resolve (fst (new_object st)) (JArr []) arg1 arg2 = Some (props, children)"
    and mc: "merge_classes props (snd (new_object st)) = (sm, Inr ())"
    and o1: "objs st1 = objs sm"
  shows "\<exists>props' sm'.
           spec_resolve (fst (new_object st1)) (JArr []) arg1 arg2 = Some (props', children)
         \<and> merge_classes props' (snd (new_object st1)) = (sm', Inr ())
         \<and> (\<forall>b. fields_of sm' b = fields_of sm b)
         \<and> nodes sm' = nodes st1
         \<and> Object_entries sm' props' = Object_entries sm props"
proof -
  have f1: "\<forall>b. fields_of (snd (new_object st1)) b = fields_of sm b"
    by (simp only: fields_of_new_object fields_of_cong_objs[OF o1]) simp
  have n1: "nodes (snd (new_object st1)) = nodes st1" by (simp add: new_object_def)
  show ?thesis
  proof (cases "shape_of arg1 = PlainObject")
    case True
    from spec_resolve_props(1)[OF res, of "fst (new_object st1)"] True
    have r': "spec_resolve (fst (new_object st1)) (JArr []) arg1 arg2 = Some (props, children)"
      by simp
    from merge_classes_again[OF mc f1] obtain sm' where
      m': "merge_classes props (snd (new_object st1)) = (sm', Inr ())"
      and f': "\<forall>b. fields_of sm' b = fields_of sm b"
      and n': "nodes sm' = nodes (snd (new_object st1))"
      by blast
    from Object_entries_same_fields[OF f'] r' m' f' n' n1 show ?thesis by auto
  next
    case False
    from spec_resolve_props(1)[OF res, of "fst (new_object st1)"] False
    have r': "spec_resolve (fst (new_object st1)) (JArr []) arg1 arg2 = Some (fst (new_object st1), children)"
      by simp
    from spec_resolve_props(3)[OF res False] have p: "props = fst (new_object st)" .
    from mc p have sm: "sm = snd (new_object st)" by (simp add: merge_fresh_object)
    have "Object_entries (snd (new_object st1)) (fst (new_object st1)) = Inr []"
      by (simp add: new_object_def fields_of_def)
    moreover have "Object_entries sm props = Inr []"
      unfolding sm p by (simp add: new_object_def fields_of_def)
    ultimately show ?thesis
      using r' merge_fresh_object[of st1] f1 n1 by auto
  qed
qed


lemma expected_children_elements:
  "Element c \<in> set (expected_children children) \<Longrightarrow>
     \<exists>xs. children = JArr xs \<and> c \<in> set (element_refs xs)"
  by (cases children) (auto simp: expected_children_def split: if_splits)

lemma expected_children_moved:
  assumes "\<forall>xs. children = JArr xs \<longrightarrow> (\<forall>c \<in> set (element_refs xs). parentNode (nodes S ! c) = Some q)"
  shows "(case children of
            JArr xs \<Rightarrow> filter (\<lambda>c. \<not> moved_from S q (element_refs xs) c) (expected_children children)
          | _ \<Rightarrow> expected_children children) = filter is_text (expected_children children)"
proof (cases "\<exists>xs. children = JArr xs")
  case True
  then obtain xs where x: "children = JArr xs" by blast
  with assms have "\<forall>c \<in> set (element_refs xs). moved_from S q (element_refs xs) (Element c)"
    by (auto simp: moved_from_def)
  then have "filter (\<lambda>c. \<not> moved_from S q (element_refs xs) c) (map Element (remdups (element_refs xs))) = []"
    by (auto simp: filter_empty_conv)
  moreover have "filter is_text (map Element (remdups (element_refs xs))) = []"
    by (auto simp: filter_empty_conv is_text_def)
  ultimately show ?thesis by (simp add: x expected_children_def)
next
  case False
  then show ?thesis
    by (cases children) (auto simp: expected_children_def is_text_def)
qed

text \<open>
  C8, as the code has it. When a call returns a node and is made again with the same
  arguments (the children being nodes of the store), the second call returns a node too,
  a different one, with the same tag, the same attributes and the same listeners, and
  with the same child list as the first node had when its call returned. The children
  are not copied: every element in that list now has the second node as its parent, and
  the first node keeps its attributes, listeners and text but none of its element
  children.
\<close>

theorem building_twice:
  "createNativeElementFunction h tag arg1 arg2 st = (st1, Inr el1)
     \<and> known_children st arg1 \<and> known_children st arg2
   \<longrightarrow> (\<exists>st2 el2.
          createNativeElementFunction h tag arg1 arg2 st1 = (st2, Inr el2)
        \<and> el1 = length (nodes st) \<and> el2 = Suc el1
        \<and> localName (nodes st2 ! el2) = localName (nodes st1 ! el1)
        \<and> attributes (nodes st2 ! el2) = attributes (nodes st1 ! el1)
        \<and> listeners (nodes st2 ! el2) = listeners (nodes st1 ! el1)
        \<and> childNodes (nodes st2 ! el2) = childNodes (nodes st1 ! el1)
        \<and> attributes (nodes st2 ! el1) = attributes (nodes st1 ! el1)
        \<and> listeners (nodes st2 ! el1) = listeners (nodes st1 ! el1)
        \<and> childNodes (nodes st2 ! el1) = filter is_text (childNodes (nodes st1 ! el1))
        \<and> (\<forall>c. Element c \<in> set (childNodes (nodes st2 ! el2)) \<longrightarrow>
              parentNode (nodes st2 ! c) = Some el2))"
proof
  assume a: "createNativeElementFunction h tag arg1 arg2 st = (st1, Inr el1)
     \<and> known_children st arg1 \<and> known_children st arg2"
  from factory_success[of h tag arg1 arg2 st st1 el1] a obtain props children sm where
    res: "spec_resolve (fst (new_object st)) (JArr []) arg1 arg2 = Some (props, children)"
    and mc: "merge_classes props (snd (new_object st)) = (sm, Inr ())"
    and b1: "createNativeDOMElement h tag props children sm = (st1, Inr el1)"
    by blast
  from merge_classes_frame[OF mc] have nsm: "nodes sm = nodes st" by (simp add: new_object_def)
  from spec_resolve_children[OF res] a have "known_children st children" by auto
  with nsm have k1: "known_children sm children" by (auto intro: known_children_mono)
  from builder_phases[OF b1] obtain s1 entries s2 where
    c1: "createElement h tag sm = Inr (el1, s1)"
    and e1: "Object_entries s1 props = Inr entries"
    and p1: "apply_props h el1 entries s1 = (s2, Inr ())"
    and ch1: "apply_children el1 (if children = JUndefined then JArr [] else children) s2 = (st1, Inr ())"
    by blast
  note ce1 = createElement_effect[OF c1]
  from builder_children[OF c1 p1 k1] ch1 have r1:
    "length (nodes st1) = length (nodes s2)"
    "childNodes (nodes st1 ! el1) = expected_children children"
    "attributes (nodes st1 ! el1) = attributes (nodes s2 ! el1)"
    "listeners (nodes st1 ! el1) = listeners (nodes s2 ! el1)"
    "localName (nodes st1 ! el1) = ascii_lower tag"
    by auto
  from builder_other_nodes[OF c1 p1 ch1 k1] have par1:
    "\<forall>xs. children = JArr xs \<longrightarrow> (\<forall>c \<in> set (element_refs xs). parentNode (nodes st1 ! c) = Some el1)"
    by blast
  from apply_props_frame[OF p1] ce1 have l2: "length (nodes s2) = Suc el1" by simp
  with r1(1) have l1: "length (nodes st1) = Suc el1" by simp
  from createNativeDOMElement_frame[OF b1] have o1: "objs st1 = objs sm" by simp
  from second_resolution[OF res mc o1] obtain props' sm' where
    res': "spec_resolve (fst (new_object st1)) (JArr []) arg1 arg2 = Some (props', children)"
    and mc': "merge_classes props' (snd (new_object st1)) = (sm', Inr ())"
    and f': "\<forall>b. fields_of sm' b = fields_of sm b"
    and n': "nodes sm' = nodes st1"
    and oe': "Object_entries sm' props' = Object_entries sm props"
    by blast
  from c1 have valid: "valid_element_name h tag"
    by (auto simp: createElement_def split: if_splits)
  define s1' where "s1' = sm'\<lparr>nodes := nodes sm' @
               [\<lparr>localName = ascii_lower tag, attributes = [], listeners = [],
                 childNodes = [], parentNode = None\<rparr>]\<rparr>"
  from valid n' l1 have c2: "createElement h tag sm' = Inr (Suc el1, s1')"
    by (simp add: createElement_def s1'_def)
  have fs1: "fields_of s1 b = fields_of sm b" for b
    using createElement_frame[OF c1] by (simp add: fields_of_def)
  have fs1': "fields_of s1' b = fields_of sm' b" for b
    by (simp add: s1'_def fields_of_def)
  have sv: "same_view s1 el1 s1' (Suc el1)"
    unfolding same_view_def
    using ce1 n' l1 f' fs1 fs1' by (simp add: s1'_def nth_append)
  have "Object_entries s1' props' = Object_entries sm' props'"
    by (intro Object_entries_same_fields) (simp add: fs1')
  moreover have "Object_entries s1 props = Object_entries sm props"
    by (intro Object_entries_same_fields) (simp add: fs1)
  ultimately have e2: "Object_entries s1' props' = Inr entries"
    using oe' e1 by simp
  from apply_props_sim[OF sv p1] obtain s2' where
    p2: "apply_props h (Suc el1) entries s1' = (s2', Inr ())"
    and sv2: "same_view s2 el1 s2' (Suc el1)"
    by blast
  from k1 nsm n' l1 ce1(1) have k2: "known_children sm' children"
    by (auto intro: known_children_mono)
  from builder_children[OF c2 p2 k2] obtain st2 where
    ch2: "apply_children (Suc el1) (if children = JUndefined then JArr [] else children) s2' = (st2, Inr ())"
    and r2: "childNodes (nodes st2 ! Suc el1) = expected_children children"
      "attributes (nodes st2 ! Suc el1) = attributes (nodes s2' ! Suc el1)"
      "listeners (nodes st2 ! Suc el1) = listeners (nodes s2' ! Suc el1)"
      "localName (nodes st2 ! Suc el1) = ascii_lower tag"
    by blast
  from builder_compose[OF c2 e2 p2 ch2]
  have b2: "createNativeDOMElement h tag props' children sm' = (st2, Inr (Suc el1))" .
  from factory_compose[OF res' mc' b2]
  have call2: "createNativeElementFunction h tag arg1 arg2 st1 = (st2, Inr (Suc el1))" .
  from sv2 have same: "nodes s2 ! el1 = nodes s2' ! Suc el1" by (simp add: same_view_def)
  from builder_other_nodes[OF c2 p2 ch2 k2] have
    par2: "\<forall>xs. children = JArr xs \<longrightarrow> (\<forall>c \<in> set (element_refs xs). parentNode (nodes st2 ! c) = Some (Suc el1))"
    and all2: "\<forall>q < length (nodes sm').
           attributes (nodes st2 ! q) = attributes (nodes sm' ! q)
         \<and> listeners (nodes st2 ! q) = listeners (nodes sm' ! q)
         \<and> localName (nodes st2 ! q) = localName (nodes sm' ! q)
         \<and> childNodes (nodes st2 ! q) =
               (case children of
                  JArr xs \<Rightarrow> filter (\<lambda>c. \<not> moved_from sm' q (element_refs xs) c) (childNodes (nodes sm' ! q))
                | _ \<Rightarrow> childNodes (nodes sm' ! q))"
    by blast+
  have lt: "el1 < length (nodes sm')" using n' l1 by simp
  have kk: "childNodes (nodes sm' ! el1) = expected_children children" using n' r1(2) by simp
  from all2 lt have o2: "attributes (nodes st2 ! el1) = attributes (nodes st1 ! el1)"
      "listeners (nodes st2 ! el1) = listeners (nodes st1 ! el1)"
    by (simp_all add: n')
  from all2 lt have "childNodes (nodes st2 ! el1) =
         (case children of
            JArr xs \<Rightarrow> filter (\<lambda>c. \<not> moved_from sm' el1 (element_refs xs) c) (childNodes (nodes sm' ! el1))
          | _ \<Rightarrow> childNodes (nodes sm' ! el1))"
    by blast
  then have o3: "childNodes (nodes st2 ! el1) =
         (case children of
            JArr xs \<Rightarrow> filter (\<lambda>c. \<not> moved_from sm' el1 (element_refs xs) c) (expected_children children)
          | _ \<Rightarrow> expected_children children)"
    unfolding kk .
  from par1 n' have "\<forall>xs. children = JArr xs \<longrightarrow>
      (\<forall>c \<in> set (element_refs xs). parentNode (nodes sm' ! c) = Some el1)" by simp
  from expected_children_moved[OF this] o3 r1(2)
  have kids1: "childNodes (nodes st2 ! el1) = filter is_text (childNodes (nodes st1 ! el1))"
    by simp
  have owner: "\<forall>c. Element c \<in> set (childNodes (nodes st2 ! Suc el1)) \<longrightarrow>
              parentNode (nodes st2 ! c) = Some (Suc el1)"
    unfolding r2(1) using par2 expected_children_elements by blast
  from call2 ce1(1) nsm r1 r2 same o2 kids1 owner
  show "\<exists>st2 el2.
          createNativeElementFunction h tag arg1 arg2 st1 = (st2, Inr el2)
        \<and> el1 = length (nodes st) \<and> el2 = Suc el1
        \<and> localName (nodes st2 ! el2) = localName (nodes st1 ! el1)
        \<and> attributes (nodes st2 ! el2) = attributes (nodes st1 ! el1)
        \<and> listeners (nodes st2 ! el2) = listeners (nodes st1 ! el1)
        \<and> childNodes (nodes st2 ! el2) = childNodes (nodes st1 ! el1)
        \<and> attributes (nodes st2 ! el1) = attributes (nodes st1 ! el1)
        \<and> listeners (nodes st2 ! el1) = listeners (nodes st1 ! el1)
        \<and> childNodes (nodes st2 ! el1) = filter is_text (childNodes (nodes st1 ! el1))
        \<and> (\<forall>c. Element c \<in> set (childNodes (nodes st2 ! el2)) \<longrightarrow>
              parentNode (nodes st2 ! c) = Some el2)"
    by simp
qed

lemma example_menu_call:
  "createNativeElementFunction example_host ''ul'' (JObj 0) (JArr [JElem 0]) menu_store
     = (menu_store_once, Inr 1)"
  by (simp add: library_defs menu_store_def menu_store_once_def example_host_def)

theorem building_twice_witness:
  "createNativeElementFunction example_host ''ul'' (JObj 0) (JArr [JElem 0]) menu_store
     = (menu_store_once, Inr 1)
   \<and> known_children menu_store (JObj 0) \<and> known_children menu_store (JArr [JElem 0])
   \<and> (\<exists>st2. createNativeElementFunction example_host ''ul'' (JObj 0) (JArr [JElem 0]) menu_store_once
               = (st2, Inr 2)
          \<and> attributes (nodes st2 ! 2) = [(''class'', ''menu wide'')]
          \<and> childNodes (nodes st2 ! 2) = [Element 0]
          \<and> childNodes (nodes st2 ! 1) = []
          \<and> parentNode (nodes st2 ! 0) = Some 2)"
proof -
  have k: "known_children menu_store (JObj 0)" "known_children menu_store (JArr [JElem 0])"
    by (simp_all add: known_children_def menu_store_def)
  have prem: "createNativeElementFunction example_host ''ul'' (JObj 0) (JArr [JElem 0]) menu_store
       = (menu_store_once, Inr 1)
     \<and> known_children menu_store (JObj 0) \<and> known_children menu_store (JArr [JElem 0])"
    using example_menu_call k by simp
  from building_twice[rule_format, OF prem] obtain st2 el2 where
    "createNativeElementFunction example_host ''ul'' (JObj 0) (JArr [JElem 0]) menu_store_once = (st2, Inr el2)"
    "el2 = Suc 1"
    "attributes (nodes st2 ! el2) = attributes (nodes menu_store_once ! 1)"
    "childNodes (nodes st2 ! el2) = childNodes (nodes menu_store_once ! 1)"
    "childNodes (nodes st2 ! 1) = filter is_text (childNodes (nodes menu_store_once ! 1))"
    "\<forall>c. Element c \<in> set (childNodes (nodes st2 ! el2)) \<longrightarrow> parentNode (nodes st2 ! c) = Some el2"
    by blast
  then show ?thesis using prem
    by (auto simp: menu_store_once_def is_text_def numeral_2_eq_2)
qed

text \<open>
  C8 as stated fails for a list of element children. After \<^verbatim>\<open>ul([li])\<close> twice the first
  \<^verbatim>\<open>ul\<close> has no child and the second has the \<^verbatim>\<open>li\<close>: the children of the two results
  are not identical; and the \<^verbatim>\<open>li\<close> the second result holds is the very node the first
  result held when its call returned, so the results do share a node reference.
\<close>

lemma example_first_call:
  "createNativeElementFunction example_host ''ul'' (JArr [JElem 0]) JUndefined item_store
     = (item_store_once, Inr 1)"
  by (simp add: library_defs item_store_def item_store_once_def example_host_def)

lemma example_second_call:
  "createNativeElementFunction example_host ''ul'' (JArr [JElem 0]) JUndefined item_store_once
     = (item_store_twice, Inr 2)"
  by (simp add: library_defs item_store_once_def item_store_twice_def example_host_def)

theorem building_twice_counterexample:
  "createNativeElementFunction example_host ''ul'' (JArr [JElem 0]) JUndefined item_store
     = (item_store_once, Inr 1)
   \<and> createNativeElementFunction example_host ''ul'' (JArr [JElem 0]) JUndefined item_store_once
     = (item_store_twice, Inr 2)
   \<and> childNodes (nodes item_store_once ! 1) = [Element 0]
   \<and> childNodes (nodes item_store_twice ! 1) = []
   \<and> childNodes (nodes item_store_twice ! 2) = [Element 0]"
  using example_first_call example_second_call
  by (simp add: item_store_once_def item_store_twice_def)


end
